theory Spec2Isabelle
  imports Main
begin

section \<open>The persisted schema\<close>

text \<open>
  The tables of \<^verbatim>\<open>prisma/schema.prisma\<close> as far as the socket handlers of the
  server read or write them. Columns that no handler reads back into a decision
  (names, prices, the product snapshot, the payment method, \<^verbatim>\<open>updatedAt\<close>) are left
  out. An \<^verbatim>\<open>Int\<close> column holds a signed integer of 32 bits: a write whose value
  leaves that range is refused (\<open>within_Int\<close>).

  The primary key of an order (\<^verbatim>\<open>@default(cuid())\<close>) is the position of its row in
  the order table, so that a fresh key is the length of the table. Products are keyed
  by the identifier that the cart lines carry.
\<close>

datatype OrderStatus = NEW | PREPARING | READY | COMPLETED | CANCELLED

record Product =
  stock :: int
  isAvailable :: bool

record Order =
  createdAt :: int
  number :: string
  status :: OrderStatus
  isPaid :: bool

record OrderItem =
  quantity :: int
  orderId :: nat
  productId :: string

record StatusHistory =
  status_h :: OrderStatus
  note_h :: "string option"
  orderId_h :: nat

definition within_Int :: "int \<Rightarrow> bool" where
  "within_Int n \<longleftrightarrow> - 2147483648 \<le> n \<and> n \<le> 2147483647"

record store =
  products :: "string \<rightharpoonup> Product"
  orders :: "Order list"
  orderItems :: "OrderItem list"
  statusHistory :: "StatusHistory list"

text \<open>
  What a handler reports to the socket that sent the event: every exception is caught
  at the end of the handler and turned into an error event.
\<close>

datatype error =
    ProductNotFound string
  | OrderNotFound nat
  | TypeError
  | MissingArgument string
  | UnknownArgument string
  | IntegerOutOfRange
  | UniqueConstraintFailed string
  | InvalidEnumValue string
  | RecordNotFound string

text \<open>The names of the enum \<^verbatim>\<open>OrderStatus\<close>, as JavaScript sees its values.\<close>

fun status_name :: "OrderStatus \<Rightarrow> string" where
  "status_name NEW = ''NEW''"
| "status_name PREPARING = ''PREPARING''"
| "status_name READY = ''READY''"
| "status_name COMPLETED = ''COMPLETED''"
| "status_name CANCELLED = ''CANCELLED''"

definition parse_status :: "string \<Rightarrow> OrderStatus option" where
  "parse_status x =
     (if x = ''NEW'' then Some NEW
      else if x = ''PREPARING'' then Some PREPARING
      else if x = ''READY'' then Some READY
      else if x = ''COMPLETED'' then Some COMPLETED
      else if x = ''CANCELLED'' then Some CANCELLED
      else None)"

section \<open>The run-time's dates\<close>

text \<open>
  A moment is a number of milliseconds since the epoch, as in a JavaScript
  \<^verbatim>\<open>Date\<close>. The time zone of the service is a fixed offset \<open>tza\<close> in milliseconds
  (local time is UTC plus \<open>tza\<close>). \<^verbatim>\<open>toISOString\<close> reads the UTC fields of a date,
  \<^verbatim>\<open>setHours\<close> sets the local ones.
\<close>

definition msPerDay :: int where
  "msPerDay = 86400000"

definition Day :: "int \<Rightarrow> int" where
  "Day t = t div msPerDay"

text \<open>Year, month and day of the month of a day number (days since 1970-01-01).\<close>

definition date_of_day :: "int \<Rightarrow> int \<times> int \<times> int" where
  "date_of_day n =
     (let z = n + 719468;
          era = z div 146097;
          doe = z mod 146097;
          yoe = (doe - doe div 1460 + doe div 36524 - doe div 146096) div 365;
          doy = doe - (365 * yoe + yoe div 4 - yoe div 100);
          mp = (5 * doy + 2) div 153;
          d = doy - (153 * mp + 2) div 5 + 1;
          m = (if mp < 10 then mp + 3 else mp - 9);
          y = yoe + era * 400
      in (if m \<le> 2 then y + 1 else y, m, d))"

fun digits :: "nat \<Rightarrow> string" where
  "digits n =
     (if n < 10 then [''0123456789'' ! n]
      else digits (n div 10) @ [''0123456789'' ! (n mod 10)])"

declare digits.simps [simp del]

definition padStart :: "nat \<Rightarrow> char \<Rightarrow> string \<Rightarrow> string" where
  "padStart n c x = replicate (n - length x) c @ x"

definition iso_year :: "int \<Rightarrow> string" where
  "iso_year y =
     (if 0 \<le> y \<and> y \<le> 9999 then padStart 4 (CHR ''0'') (digits (nat y))
      else (if y < 0 then ''-'' else ''+'') @ padStart 6 (CHR ''0'') (digits (nat \<bar>y\<bar>)))"

text \<open>\<^verbatim>\<open>toISOString().slice(0, 10)\<close>: the first ten characters of the ISO form.\<close>

definition toISOString_slice10 :: "int \<Rightarrow> string" where
  "toISOString_slice10 t =
     (case date_of_day (Day t) of
        (y, m, d) \<Rightarrow>
          take 10 (iso_year y @ ''-'' @ padStart 2 (CHR ''0'') (digits (nat m)) @ ''-''
                   @ padStart 2 (CHR ''0'') (digits (nat d)) @ ''T''))"

text \<open>\<^verbatim>\<open>setHours(h, m, s, ms)\<close>: the same local day, at the given local time.\<close>

definition setHours :: "int \<Rightarrow> int \<Rightarrow> int \<Rightarrow> int \<Rightarrow> int \<Rightarrow> int \<Rightarrow> int" where
  "setHours tza t h m s ms =
     Day (t + tza) * msPerDay + (((h * 60 + m) * 60 + s) * 1000 + ms) - tza"

section \<open>The order number\<close>

text \<open>
  \<^verbatim>\<open>generateOrderNumber\<close>: the date string comes from \<^verbatim>\<open>toISOString\<close>, the window
  of the count from \<^verbatim>\<open>setHours\<close>; \<^verbatim>\<open>todayEnd\<close> is set on a copy of \<^verbatim>\<open>today\<close>
  after \<^verbatim>\<open>today\<close> has been moved to the start of the day.
\<close>

definition order_count :: "store \<Rightarrow> int \<Rightarrow> int \<Rightarrow> nat" where
  "order_count s gte lte =
     length (filter (\<lambda>row. gte \<le> createdAt row \<and> createdAt row \<le> lte) (orders s))"

definition generateOrderNumber :: "int \<Rightarrow> int \<Rightarrow> store \<Rightarrow> string" where
  "generateOrderNumber tza today s =
     (let dateStr = filter (\<lambda>c. c \<noteq> CHR ''-'') (toISOString_slice10 today);
          todayStart = setHours tza today 0 0 0 0;
          todayEnd = setHours tza todayStart 23 59 59 999;
          todayOrdersCount = order_count s todayStart todayEnd
      in dateStr @ ''-'' @ padStart 3 (CHR ''0'') (digits (todayOrdersCount + 1)))"

text \<open>
  The order number as the specification words it, to compare with the function
  above: the calendar date of the moment in the time zone of the service, and the
  count of the orders of that local day, plus one.
\<close>

definition spec_orderNumber :: "int \<Rightarrow> int \<Rightarrow> store \<Rightarrow> string" where
  "spec_orderNumber tza today s =
     filter (\<lambda>c. c \<noteq> CHR ''-'') (toISOString_slice10 (today + tza)) @ ''-'' @
     padStart 3 (CHR ''0'')
       (digits (order_count s (setHours tza today 0 0 0 0) (setHours tza today 23 59 59 999) + 1))"

section \<open>Submitting an order\<close>

text \<open>
  A cart line of the \<^verbatim>\<open>new_order\<close> event (\<^verbatim>\<open>ProductItem\<close>). Its \<^verbatim>\<open>id\<close> is a
  string; a line without one is outside this model. Its \<^verbatim>\<open>quantity\<close> is an
  optional number: absent, an integer, or \<^verbatim>\<open>NaN\<close>. (A number with a fraction is
  refused by the \<^verbatim>\<open>Int\<close> column and is not a value of this type.)
\<close>

datatype js_quantity = Undefined | Number int | NaN

record ProductItem =
  item_id :: string
  item_quantity :: js_quantity

text \<open>
  The payload of \<^verbatim>\<open>new_order\<close> as far as it decides what the handler does: the
  name, the payment method and the instructions, each of which may be absent, and
  the cart. The total and the price of each line are taken to be numbers that the
  \<^verbatim>\<open>Float\<close> columns accept: a payload without them is outside this model, and
  those columns are left out.
\<close>

record orderData =
  nom :: "string option"
  paiement :: "string option"
  instructions :: "string option"
  panier :: "ProductItem list"

datatype PaymentMethod = CASH | CARD | PAYPAL

text \<open>
  \<^verbatim>\<open>toUpperCase\<close> on the letters a to z. Of the other characters of one byte none
  becomes a letter of the names below (the sharp s becomes two letters S, which no
  name contains), so the switch decides alike.
\<close>

definition toUpperCase :: "string \<Rightarrow> string" where
  "toUpperCase x =
     map (\<lambda>c. case map_of (zip ''abcdefghijklmnopqrstuvwxyz'' ''ABCDEFGHIJKLMNOPQRSTUVWXYZ'') c of
                 None \<Rightarrow> c
               | Some u \<Rightarrow> u) x"

text \<open>
  \<^verbatim>\<open>mapPaymentMethod\<close>: the call of \<^verbatim>\<open>toUpperCase\<close> on a method that is absent
  throws a \<^verbatim>\<open>TypeError\<close>.
\<close>

definition mapPaymentMethod :: "string option \<Rightarrow> error + PaymentMethod" where
  "mapPaymentMethod method =
     (case method of
        None \<Rightarrow> Inl TypeError
      | Some m \<Rightarrow>
          (let u = toUpperCase m in
           if u = ''CB'' \<or> u = ''CARD'' then Inr CARD
           else if u = ''ESPECES'' \<or> u = ''CASH'' then Inr CASH
           else if u = ''PAYPAL'' then Inr PAYPAL
           else Inr CASH))"

text \<open>\<^verbatim>\<open>item.quantity || 1\<close>: the left operand unless it is falsy.\<close>

fun quantity_or_1 :: "js_quantity \<Rightarrow> int" where
  "quantity_or_1 Undefined = 1"
| "quantity_or_1 NaN = 1"
| "quantity_or_1 (Number n) = (if n = 0 then 1 else n)"

text \<open>
  The callback mapped over \<^verbatim>\<open>orderData.panier\<close>: look the product up, throw when
  there is none, else give the data of the item to create (quantity and product).
\<close>

definition item_create :: "store \<Rightarrow> ProductItem \<Rightarrow> error + (int \<times> string)" where
  "item_create s item =
     (case products s (item_id item) of
        None \<Rightarrow> Inl (ProductNotFound (item_id item))
      | Some product \<Rightarrow> Inr (quantity_or_1 (item_quantity item), item_id item))"

text \<open>
  \<^verbatim>\<open>Promise.all\<close> over the mapped callbacks: the items in cart order, or the
  rejection of a line that fails. Which failing line rejects first depends on the
  order in which the look-ups return; here it is the first in cart order.
\<close>

fun items_create :: "store \<Rightarrow> ProductItem list \<Rightarrow> error + (int \<times> string) list" where
  "items_create s [] = Inr []"
| "items_create s (item # rest) =
     (case item_create s item of
        Inl e \<Rightarrow> Inl e
      | Inr x \<Rightarrow>
          (case items_create s rest of
             Inl e \<Rightarrow> Inl e
           | Inr xs \<Rightarrow> Inr (x # xs)))"

definition note_created :: string where
  "note_created = ''Commande cr'' @ [CHR 0xE9, CHR 0xE9] @ ''e''"

text \<open>
  \<^verbatim>\<open>prisma.order.create\<close> with its nested creates: one statement of the store. The
  data are checked against the schema first: the name of the customer is required,
  \<^verbatim>\<open>Order\<close> has no column \<^verbatim>\<open>instructions\<close>, and a quantity must fit its
  \<^verbatim>\<open>Int\<close> column. Then the store refuses a \<^verbatim>\<open>number\<close> that a row already
  carries (\<^verbatim>\<open>@unique\<close>). Otherwise it adds the order, its items and its first
  history entry, and returns the new key. The rows of the items come to stand in
  the table last cart line first; no query of the handlers asks for an order of
  the rows.
\<close>

definition order_create ::
  "int \<Rightarrow> string \<Rightarrow> string option \<Rightarrow> string option \<Rightarrow> (int \<times> string) list \<Rightarrow> store
     \<Rightarrow> (error + nat) \<times> store" where
  "order_create now orderNumber customerName instr items s =
     (if customerName = None then (Inl (MissingArgument ''customerName''), s)
      else if instr \<noteq> None then (Inl (UnknownArgument ''instructions''), s)
      else if \<not> list_all (\<lambda>x. within_Int (fst x)) items then (Inl IntegerOutOfRange, s)
      else if orderNumber \<in> number ` set (orders s)
      then (Inl (UniqueConstraintFailed orderNumber), s)
      else
        (let oid = length (orders s) in
         (Inr oid,
          s\<lparr>orders := orders s @
               [\<lparr>createdAt = now, number = orderNumber, status = NEW, isPaid = False\<rparr>],
            orderItems := orderItems s @
               rev (map (\<lambda>(q, p). \<lparr>quantity = q, orderId = oid, productId = p\<rparr>) items),
            statusHistory := statusHistory s @
               [\<lparr>status_h = NEW, note_h = Some note_created, orderId_h = oid\<rparr>]\<rparr>)))"

text \<open>
  The handler of \<^verbatim>\<open>new_order\<close>, up to the store: the events it emits afterwards
  change nothing. \<open>now\<close> is the moment of the call, read by
  \<^verbatim>\<open>generateOrderNumber\<close> and by the \<^verbatim>\<open>createdAt\<close> default. The mapped
  payment method goes to a column that is left out. The instructions are handed to
  the store only when they are truthy (present and not empty).
\<close>

definition new_order :: "int \<Rightarrow> int \<Rightarrow> orderData \<Rightarrow> store \<Rightarrow> (error + nat) \<times> store" where
  "new_order tza now orderData s =
     (let orderNumber = generateOrderNumber tza now s in
      case mapPaymentMethod (paiement orderData) of
        Inl e \<Rightarrow> (Inl e, s)
      | Inr paymentMethod \<Rightarrow>
          (case items_create s (panier orderData) of
             Inl e \<Rightarrow> (Inl e, s)
           | Inr items \<Rightarrow>
               order_create now orderNumber (nom orderData)
                 (case instructions orderData of
                    None \<Rightarrow> None
                  | Some x \<Rightarrow> if x = [] then None else Some x)
                 items s))"

section \<open>The inventory adjuster\<close>

text \<open>
  \<^verbatim>\<open>prisma.orderItem.findMany\<close> for one order with \<^verbatim>\<open>include: { product: true }\<close>:
  the items of the order in table order, each with the product row as it is when the
  query runs. The relation is required; an item whose product row is missing makes
  the query fail.
\<close>

fun include_product ::
  "(string \<rightharpoonup> Product) \<Rightarrow> OrderItem list \<Rightarrow> error + (OrderItem \<times> Product) list" where
  "include_product ps [] = Inr []"
| "include_product ps (item # rest) =
     (case ps (productId item) of
        None \<Rightarrow> Inl (RecordNotFound (productId item))
      | Some product \<Rightarrow>
          (case include_product ps rest of
             Inl e \<Rightarrow> Inl e
           | Inr xs \<Rightarrow> Inr ((item, product) # xs)))"

definition items_of :: "store \<Rightarrow> nat \<Rightarrow> OrderItem list" where
  "items_of s oid = filter (\<lambda>item. orderId item = oid) (orderItems s)"

definition findMany_items :: "store \<Rightarrow> nat \<Rightarrow> error + (OrderItem \<times> Product) list" where
  "findMany_items s oid = include_product (products s) (items_of s oid)"

text \<open>
  \<^verbatim>\<open>prisma.product.update\<close>: fails when no row has the key, and when the new
  stock does not fit the \<^verbatim>\<open>Int\<close> column (integer out of range); a failed update
  writes nothing.
\<close>

definition product_update ::
  "string \<Rightarrow> (Product \<Rightarrow> Product) \<Rightarrow> store \<Rightarrow> error + store" where
  "product_update pid f s =
     (case products s pid of
        None \<Rightarrow> Inl (RecordNotFound pid)
      | Some row \<Rightarrow>
          if within_Int (stock (f row))
          then Inr (s\<lparr>products := (products s)(pid \<mapsto> f row)\<rparr>)
          else Inl IntegerOutOfRange)"

text \<open>
  The loop of \<^verbatim>\<open>updateProductStock\<close>. The decrement is relative to the row in the
  store; the availability flag is computed from the product as \<^verbatim>\<open>findMany\<close>
  returned it before the loop. Each update is a statement of its own: when one
  fails, the updates before it stay written.
\<close>

fun decrement_items :: "(OrderItem \<times> Product) list \<Rightarrow> store \<Rightarrow> (error + unit) \<times> store" where
  "decrement_items [] s = (Inr (), s)"
| "decrement_items ((item, product) # rest) s =
     (case product_update (productId item)
             (\<lambda>row. row\<lparr>stock := stock row - quantity item,
                       isAvailable := (stock product - quantity item > 0)\<rparr>) s of
        Inl e \<Rightarrow> (Inl e, s)
      | Inr s' \<Rightarrow> decrement_items rest s')"

text \<open>An order as the handlers pass it on: its key and its row.\<close>

definition updateProductStock :: "nat \<times> Order \<Rightarrow> store \<Rightarrow> (error + unit) \<times> store" where
  "updateProductStock order s =
     (if isPaid (snd order) \<and> status (snd order) = PREPARING then
        (case findMany_items s (fst order) of
           Inl e \<Rightarrow> (Inl e, s)
         | Inr items \<Rightarrow> decrement_items items s)
      else (Inr (), s))"

fun restore_items :: "(OrderItem \<times> Product) list \<Rightarrow> store \<Rightarrow> (error + unit) \<times> store" where
  "restore_items [] s = (Inr (), s)"
| "restore_items ((item, product) # rest) s =
     (case product_update (productId item)
             (\<lambda>row. row\<lparr>stock := stock row + quantity item, isAvailable := True\<rparr>) s of
        Inl e \<Rightarrow> (Inl e, s)
      | Inr s' \<Rightarrow> restore_items rest s')"

definition shouldRestoreStock :: "Order \<Rightarrow> OrderStatus \<Rightarrow> bool" where
  "shouldRestoreStock order previousStatus \<longleftrightarrow>
     (previousStatus = PREPARING \<and> status order = CANCELLED) \<or>
     (previousStatus = PREPARING \<and> status order = PREPARING \<and> \<not> isPaid order)"

definition restoreProductStock ::
  "nat \<times> Order \<Rightarrow> OrderStatus \<Rightarrow> store \<Rightarrow> (error + unit) \<times> store" where
  "restoreProductStock order previousStatus s =
     (if shouldRestoreStock (snd order) previousStatus then
        (case findMany_items s (fst order) of
           Inl e \<Rightarrow> (Inl e, s)
         | Inr items \<Rightarrow> restore_items items s)
      else (Inr (), s))"

section \<open>Changing the status of an order\<close>

text \<open>
  The payload of \<^verbatim>\<open>update_order_status\<close>: \<^verbatim>\<open>status\<close> is any string, or absent;
  \<^verbatim>\<open>isPaid\<close> and \<^verbatim>\<open>note\<close> are optional too.
\<close>

record update_data =
  orderId_d :: nat
  status_d :: "string option"
  isPaid_d :: "bool option"
  note_d :: "string option"

definition findUnique :: "store \<Rightarrow> nat \<Rightarrow> Order option" where
  "findUnique s oid = (if oid < length (orders s) then Some (orders s ! oid) else None)"

text \<open>
  The note of the history entry: \<^verbatim>\<open>data.note\<close> unless it is falsy (absent or
  empty), else the template string with the previous status and the new one. The
  accented letters of the source text are the characters 0xE9 and 0xE0.
\<close>

definition note_changed :: "OrderStatus \<Rightarrow> string \<Rightarrow> string" where
  "note_changed previousStatus newStatus =
     ''Statut modifi'' @ [CHR 0xE9] @ '' de '' @ status_name previousStatus
       @ '' '' @ [CHR 0xE0] @ '' '' @ newStatus"

definition history_note :: "string option \<Rightarrow> OrderStatus \<Rightarrow> string \<Rightarrow> string" where
  "history_note note previousStatus newStatus =
     (case note of
        None \<Rightarrow> note_changed previousStatus newStatus
      | Some n \<Rightarrow> if n = [] then note_changed previousStatus newStatus else n)"

text \<open>
  \<^verbatim>\<open>historyCreate\<close>: the nested create, present when \<^verbatim>\<open>data.status\<close> is truthy
  (a string that is not empty).
\<close>

definition historyCreate :: "update_data \<Rightarrow> OrderStatus \<Rightarrow> (string \<times> string) option" where
  "historyCreate data previousStatus =
     (case status_d data of
        None \<Rightarrow> None
      | Some st \<Rightarrow>
          if st = [] then None
          else Some (st, history_note (note_d data) previousStatus st))"

text \<open>
  \<^verbatim>\<open>prisma.order.update\<close>: one statement of the store. A status that is not a name
  of the enum is refused before anything is written; otherwise the given fields
  are set and the history entry, when there is one, is appended. It returns the
  row as updated. (The handler has looked the order up before it calls this, so
  the case of a missing row does not arise there.)
\<close>

definition check_enum :: "string option \<Rightarrow> error + OrderStatus option" where
  "check_enum x =
     (case x of
        None \<Rightarrow> Inr None
      | Some n \<Rightarrow>
          (case parse_status n of
             None \<Rightarrow> Inl (InvalidEnumValue n)
           | Some v \<Rightarrow> Inr (Some v)))"

definition history_rows ::
  "nat \<Rightarrow> OrderStatus option \<Rightarrow> (string \<times> string) option \<Rightarrow> StatusHistory list" where
  "history_rows oid hv hist =
     (case hv of
        None \<Rightarrow> []
      | Some v \<Rightarrow>
          (case hist of
             None \<Rightarrow> []
           | Some hn \<Rightarrow> [\<lparr>status_h = v, note_h = Some (snd hn), orderId_h = oid\<rparr>]))"

definition order_update ::
  "nat \<Rightarrow> string option \<Rightarrow> bool option \<Rightarrow> (string \<times> string) option \<Rightarrow> store
     \<Rightarrow> error + (Order \<times> store)" where
  "order_update oid st paid hist s =
     (case findUnique s oid of
        None \<Rightarrow> Inl (OrderNotFound oid)
      | Some row \<Rightarrow>
          (case check_enum st of
             Inl e \<Rightarrow> Inl e
           | Inr v \<Rightarrow>
               (case check_enum (map_option fst hist) of
                  Inl e \<Rightarrow> Inl e
                | Inr hv \<Rightarrow>
                    (let row' = row\<lparr>status := (case v of None \<Rightarrow> status row | Some x \<Rightarrow> x),
                                     isPaid := (case paid of None \<Rightarrow> isPaid row | Some b \<Rightarrow> b)\<rparr>
                     in Inr (row',
                          s\<lparr>orders := (orders s)[oid := row'],
                            statusHistory := statusHistory s @ history_rows oid hv hist\<rparr>)))))"

text \<open>The two guards of the handler around the inventory adjuster.\<close>

definition decrement_trigger :: "update_data \<Rightarrow> OrderStatus \<Rightarrow> Order \<Rightarrow> bool" where
  "decrement_trigger data previousStatus updatedOrder \<longleftrightarrow>
     (status_d data = Some ''PREPARING'' \<and> isPaid updatedOrder) \<or>
     (previousStatus = PREPARING \<and> isPaid_d data = Some True)"

definition restore_trigger :: "update_data \<Rightarrow> OrderStatus \<Rightarrow> bool \<Rightarrow> bool" where
  "restore_trigger data previousStatus previousIsPaid \<longleftrightarrow>
     (previousStatus = PREPARING \<and> status_d data = Some ''CANCELLED'') \<or>
     (previousStatus = PREPARING \<and> previousIsPaid \<and> isPaid_d data = Some False)"

text \<open>
  The part of the handler after the order is written: the decrement under its
  guard, then the restore under its guard. An exception in the first skips the
  second.
\<close>

definition adjust_inventory ::
  "update_data \<Rightarrow> OrderStatus \<Rightarrow> bool \<Rightarrow> nat \<times> Order \<Rightarrow> store \<Rightarrow> (error + unit) \<times> store" where
  "adjust_inventory data previousStatus previousIsPaid updatedOrder s =
     (case (if decrement_trigger data previousStatus (snd updatedOrder)
            then updateProductStock updatedOrder s else (Inr (), s)) of
        (Inl e, s1) \<Rightarrow> (Inl e, s1)
      | (Inr u, s1) \<Rightarrow>
          (if restore_trigger data previousStatus previousIsPaid
           then restoreProductStock updatedOrder previousStatus s1 else (Inr (), s1)))"

text \<open>
  The handler of \<^verbatim>\<open>update_order_status\<close>, up to the store: it gives the error of
  the error event or the updated order of the broadcasts, and the store as the
  call leaves it (what was written before an exception stays written).
\<close>

definition update_order_status :: "update_data \<Rightarrow> store \<Rightarrow> (error + Order) \<times> store" where
  "update_order_status data s =
     (case findUnique s (orderId_d data) of
        None \<Rightarrow> (Inl (OrderNotFound (orderId_d data)), s)
      | Some currentOrder \<Rightarrow>
          (let previousStatus = status currentOrder;
               previousIsPaid = isPaid currentOrder
           in case order_update (orderId_d data) (status_d data) (isPaid_d data)
                     (historyCreate data previousStatus) s of
                Inl e \<Rightarrow> (Inl e, s)
              | Inr (updatedOrder, s1) \<Rightarrow>
                  (case adjust_inventory data previousStatus previousIsPaid
                          (orderId_d data, updatedOrder) s1 of
                     (Inl e, s2) \<Rightarrow> (Inl e, s2)
                   | (Inr u, s2) \<Rightarrow> (Inr updatedOrder, s2))))"

section \<open>Notions for the statements\<close>

text \<open>What an order asks of one product: the quantities of its items of that product.\<close>

definition qty_total :: "OrderItem list \<Rightarrow> string \<Rightarrow> int" where
  "qty_total items p = sum_list (map quantity (filter (\<lambda>item. productId item = p) items))"

text \<open>
  The status and the payment flag that a call leaves on the order: the field given,
  else the one the order had.
\<close>

definition status_after :: "Order \<Rightarrow> OrderStatus option \<Rightarrow> OrderStatus" where
  "status_after cur st = (case st of None \<Rightarrow> status cur | Some v \<Rightarrow> v)"

definition isPaid_after :: "Order \<Rightarrow> bool option \<Rightarrow> bool" where
  "isPaid_after cur paid = (case paid of None \<Rightarrow> isPaid cur | Some b \<Rightarrow> b)"

text \<open>Every item of the order points to a product row (the foreign key).\<close>

definition items_linked :: "store \<Rightarrow> nat \<Rightarrow> bool" where
  "items_linked s oid = list_all (\<lambda>item. products s (productId item) \<noteq> None) (items_of s oid)"

text \<open>What a cart asks of one product, each line counted as the handler stores it.\<close>

definition cart_total :: "ProductItem list \<Rightarrow> string \<Rightarrow> int" where
  "cart_total lines p =
     sum_list (map (\<lambda>line. quantity_or_1 (item_quantity line))
                (filter (\<lambda>line. item_id line = p) lines))"

text \<open>Every item of the store belongs to an order of the store (the other foreign key).\<close>

definition items_owned :: "store \<Rightarrow> bool" where
  "items_owned s = list_all (\<lambda>item. orderId item < length (orders s)) (orderItems s)"

text \<open>The same for every item of the store.\<close>

definition store_linked :: "store \<Rightarrow> bool" where
  "store_linked s = list_all (\<lambda>item. products s (productId item) \<noteq> None) (orderItems s)"

text \<open>
  The two guards that stand before each effect, taken together: the guard of the
  handler and the guard inside the adjuster, for the order \<open>cur\<close> as it was and
  \<open>upd\<close> as the call wrote it.
\<close>

definition decrement_applies :: "update_data \<Rightarrow> Order \<Rightarrow> Order \<Rightarrow> bool" where
  "decrement_applies data cur upd \<longleftrightarrow>
     decrement_trigger data (status cur) upd \<and> (isPaid upd \<and> status upd = PREPARING)"

definition restore_applies :: "update_data \<Rightarrow> Order \<Rightarrow> Order \<Rightarrow> bool" where
  "restore_applies data cur upd \<longleftrightarrow>
     restore_trigger data (status cur) (isPaid cur) \<and> shouldRestoreStock upd (status cur)"

section \<open>A shop, for the examples\<close>

text \<open>
  A service one hour east of UTC, a shop with two products and no order yet, and a
  cart: three of the first product, and a line without quantity for the second.
  The first moment is 2025-03-07, ten o'clock in the morning local time; the second
  is half past midnight local time in the night that follows (2025-03-08 local,
  2025-03-07T23:30Z).
\<close>

definition tza_paris :: int where
  "tza_paris = 3600000"

definition morning :: int where
  "morning = 1741338000000"

definition after_midnight :: int where
  "after_midnight = 1741390200000"

definition shop :: store where
  "shop = \<lparr>products = [''A'' \<mapsto> \<lparr>stock = 10, isAvailable = True\<rparr>,
                        ''B'' \<mapsto> \<lparr>stock = 1, isAvailable = True\<rparr>],
           orders = [], orderItems = [], statusHistory = []\<rparr>"

definition cart :: "ProductItem list" where
  "cart = [\<lparr>item_id = ''A'', item_quantity = Number 3\<rparr>,
           \<lparr>item_id = ''B'', item_quantity = Undefined\<rparr>]"

definition submission :: orderData where
  "submission = \<lparr>nom = Some ''Camille'', paiement = Some ''cb'', instructions = None, panier = cart\<rparr>"

text \<open>The shop after the cart was submitted in the morning.\<close>

definition shop_ordered :: store where
  "shop_ordered = snd (new_order tza_paris morning submission shop)"

text \<open>Payloads of \<^verbatim>\<open>update_order_status\<close> for the order of the shop.\<close>

definition prepare_paid :: update_data where
  "prepare_paid = \<lparr>orderId_d = 0, status_d = Some ''PREPARING'', isPaid_d = Some True, note_d = None\<rparr>"

definition pay :: update_data where
  "pay = \<lparr>orderId_d = 0, status_d = None, isPaid_d = Some True, note_d = None\<rparr>"

definition prepare :: update_data where
  "prepare = \<lparr>orderId_d = 0, status_d = Some ''PREPARING'', isPaid_d = None, note_d = None\<rparr>"

definition prepare_noted :: update_data where
  "prepare_noted =
     \<lparr>orderId_d = 0, status_d = Some ''PREPARING'', isPaid_d = None, note_d = Some ''go''\<rparr>"

definition bad_status :: update_data where
  "bad_status = \<lparr>orderId_d = 0, status_d = Some ''DONE'', isPaid_d = None, note_d = None\<rparr>"

definition ready_paid :: update_data where
  "ready_paid = \<lparr>orderId_d = 0, status_d = Some ''READY'', isPaid_d = Some True, note_d = None\<rparr>"

definition ready_unpaid :: update_data where
  "ready_unpaid = \<lparr>orderId_d = 0, status_d = Some ''READY'', isPaid_d = Some False, note_d = None\<rparr>"

definition cancel :: update_data where
  "cancel = \<lparr>orderId_d = 0, status_d = Some ''CANCELLED'', isPaid_d = None, note_d = None\<rparr>"

definition complete :: update_data where
  "complete = \<lparr>orderId_d = 0, status_d = Some ''COMPLETED'', isPaid_d = None, note_d = None\<rparr>"

definition reopen :: update_data where
  "reopen = \<lparr>orderId_d = 0, status_d = Some ''NEW'', isPaid_d = Some False, note_d = None\<rparr>"

definition touch :: update_data where
  "touch = \<lparr>orderId_d = 0, status_d = None, isPaid_d = None, note_d = None\<rparr>"

text \<open>The shop with the order in preparation, unpaid and paid.\<close>

definition shop_preparing :: store where
  "shop_preparing = snd (update_order_status prepare shop_ordered)"

definition shop_prepared_paid :: store where
  "shop_prepared_paid = snd (update_order_status prepare_paid shop_ordered)"

text \<open>The order served, after it was paid and prepared.\<close>

definition shop_completed :: store where
  "shop_completed = snd (update_order_status complete shop_prepared_paid)"

text \<open>A cart that asks for more of the second product than the shop has.\<close>

definition greedy_cart :: "ProductItem list" where
  "greedy_cart = [\<lparr>item_id = ''B'', item_quantity = Number 3\<rparr>]"

definition greedy_submission :: orderData where
  "greedy_submission =
     \<lparr>nom = Some ''Camille'', paiement = Some ''cb'', instructions = None, panier = greedy_cart\<rparr>"

text \<open>A cart whose first line asks for no piece, and a cart as large as the column allows.\<close>

definition zero_submission :: orderData where
  "zero_submission =
     \<lparr>nom = Some ''Camille'', paiement = Some ''cash'', instructions = None,
      panier = [\<lparr>item_id = ''A'', item_quantity = Number 0\<rparr>,
                \<lparr>item_id = ''B'', item_quantity = NaN\<rparr>]\<rparr>"

definition huge_submission :: orderData where
  "huge_submission =
     \<lparr>nom = Some ''Camille'', paiement = Some ''cash'', instructions = None,
      panier = [\<lparr>item_id = ''A'', item_quantity = Number 2147483647\<rparr>]\<rparr>"

text \<open>The shop after each of them, and the second order put in preparation.\<close>

definition shop_zero :: store where
  "shop_zero = snd (new_order tza_paris morning zero_submission shop)"

definition shop_huge :: store where
  "shop_huge = snd (new_order tza_paris morning huge_submission shop)"

definition shop_huge_preparing :: store where
  "shop_huge_preparing = snd (update_order_status prepare shop_huge)"

section \<open>Facts about the store operations\<close>

lemma parse_status_name: "parse_status (status_name v) = Some v"
  by (cases v) (simp_all add: parse_status_def)

lemma status_name_nonempty: "status_name v \<noteq> []"
  by (cases v) simp_all

lemma status_name_PREPARING: "status_name v = ''PREPARING'' \<longleftrightarrow> v = PREPARING"
  by (cases v) simp_all

lemma status_name_CANCELLED: "status_name v = ''CANCELLED'' \<longleftrightarrow> v = CANCELLED"
  by (cases v) simp_all

lemma qty_total_Nil: "qty_total [] p = 0"
  by (simp add: qty_total_def)

lemma qty_total_Cons:
  "qty_total (item # rest) p = (if productId item = p then quantity item else 0) + qty_total rest p"
  by (simp add: qty_total_def)

lemma include_product_fst: "include_product ps xs = Inr ys \<Longrightarrow> map fst ys = xs"
  by (induction xs arbitrary: ys) (auto split: option.splits sum.splits)

lemma include_product_ok:
  "list_all (\<lambda>item. ps (productId item) \<noteq> None) xs \<Longrightarrow> \<exists>ys. include_product ps xs = Inr ys"
  by (induction xs) (auto split: option.splits sum.splits)

lemma product_update_frame:
  "product_update pid f s = Inr s' \<Longrightarrow>
     orders s' = orders s \<and> orderItems s' = orderItems s \<and> statusHistory s' = statusHistory s"
  by (auto simp: product_update_def split: option.splits if_splits)

lemma product_update_Inr:
  "product_update pid f s = Inr s' \<Longrightarrow>
     \<exists>row. products s pid = Some row \<and> within_Int (stock (f row)) \<and>
           s' = s\<lparr>products := (products s)(pid \<mapsto> f row)\<rparr>"
  by (auto simp: product_update_def split: option.splits if_splits)

lemma product_update_ok:
  "products s pid = Some row \<Longrightarrow> within_Int (stock (f row)) \<Longrightarrow>
     product_update pid f s = Inr (s\<lparr>products := (products s)(pid \<mapsto> f row)\<rparr>)"
  by (simp add: product_update_def)

lemma decrement_items_frame:
  "orders (snd (decrement_items xs s)) = orders s \<and>
   orderItems (snd (decrement_items xs s)) = orderItems s \<and>
   statusHistory (snd (decrement_items xs s)) = statusHistory s"
proof (induction xs arbitrary: s)
  case Nil
  show ?case by simp
next
  case (Cons x xs)
  obtain item product where x: "x = (item, product)" by (cases x)
  show ?case
    using Cons.IH product_update_frame
    by (auto simp: x split: sum.splits)
qed

lemma restore_items_frame:
  "orders (snd (restore_items xs s)) = orders s \<and>
   orderItems (snd (restore_items xs s)) = orderItems s \<and>
   statusHistory (snd (restore_items xs s)) = statusHistory s"
proof (induction xs arbitrary: s)
  case Nil
  show ?case by simp
next
  case (Cons x xs)
  obtain item product where x: "x = (item, product)" by (cases x)
  show ?case
    using Cons.IH product_update_frame
    by (auto simp: x split: sum.splits)
qed

lemma updateProductStock_frame:
  "orders (snd (updateProductStock order s)) = orders s \<and>
   orderItems (snd (updateProductStock order s)) = orderItems s \<and>
   statusHistory (snd (updateProductStock order s)) = statusHistory s"
  by (simp add: updateProductStock_def decrement_items_frame split: sum.splits)

lemma restoreProductStock_frame:
  "orders (snd (restoreProductStock order prev s)) = orders s \<and>
   orderItems (snd (restoreProductStock order prev s)) = orderItems s \<and>
   statusHistory (snd (restoreProductStock order prev s)) = statusHistory s"
  by (simp add: restoreProductStock_def restore_items_frame split: sum.splits)

text \<open>
  The block of the two guarded calls does at most one of them: the guard inside
  \<^verbatim>\<open>updateProductStock\<close> wants the order paid and in preparation, the one inside
  \<^verbatim>\<open>restoreProductStock\<close> wants it cancelled or unpaid.
\<close>

lemma updateProductStock_idle:
  "\<not> (isPaid (snd order) \<and> status (snd order) = PREPARING) \<Longrightarrow>
     updateProductStock order s = (Inr (), s)"
  by (auto simp: updateProductStock_def)

lemma restoreProductStock_idle:
  "isPaid (snd order) \<and> status (snd order) = PREPARING \<Longrightarrow>
     restoreProductStock order prev s = (Inr (), s)"
  by (auto simp: restoreProductStock_def shouldRestoreStock_def)

lemma adjust_inventory_cases:
  "adjust_inventory data prev prevPaid order s = (Inr (), s) \<or>
   adjust_inventory data prev prevPaid order s = updateProductStock order s \<or>
   adjust_inventory data prev prevPaid order s = restoreProductStock order prev s"
proof (cases "isPaid (snd order) \<and> status (snd order) = PREPARING")
  case True
  obtain r s1 where r: "updateProductStock order s = (r, s1)"
    by (cases "updateProductStock order s")
  show ?thesis
    by (cases r) (simp_all add: adjust_inventory_def r restoreProductStock_idle [OF True])
next
  case False
  show ?thesis
    by (simp add: adjust_inventory_def updateProductStock_idle [OF False])
qed

lemma adjust_inventory_frame:
  "orders (snd (adjust_inventory data prev prevPaid order s)) = orders s \<and>
   orderItems (snd (adjust_inventory data prev prevPaid order s)) = orderItems s \<and>
   statusHistory (snd (adjust_inventory data prev prevPaid order s)) = statusHistory s"
  using adjust_inventory_cases [of data prev prevPaid order s]
    updateProductStock_frame [of order s] restoreProductStock_frame [of order prev s]
  by auto

lemma order_update_valid:
  assumes "findUnique s (orderId_d data) = Some cur"
    and "status_d data = map_option status_name st"
  shows "order_update (orderId_d data) (status_d data) (isPaid_d data) (historyCreate data prev) s =
         Inr (cur\<lparr>status := status_after cur st, isPaid := isPaid_after cur (isPaid_d data)\<rparr>,
              s\<lparr>orders := (orders s)[orderId_d data :=
                   cur\<lparr>status := status_after cur st, isPaid := isPaid_after cur (isPaid_d data)\<rparr>],
                statusHistory := statusHistory s @
                  (case st of None \<Rightarrow> []
                   | Some v \<Rightarrow> [\<lparr>status_h = v,
                        note_h = Some (history_note (note_d data) prev (status_name v)),
                        orderId_h = orderId_d data\<rparr>])\<rparr>)"
  using assms
  by (cases st)
     (simp_all add: order_update_def check_enum_def historyCreate_def history_rows_def Let_def
        parse_status_name status_name_nonempty status_after_def isPaid_after_def)

lemma order_update_invalid:
  assumes "findUnique s (orderId_d data) = Some cur"
    and "status_d data = Some x" and "parse_status x = None"
  shows "order_update (orderId_d data) (status_d data) (isPaid_d data) hist s = Inl (InvalidEnumValue x)"
  using assms by (simp add: order_update_def check_enum_def)

lemma order_update_products:
  "order_update oid st paid hist s = Inr (upd, s1) \<Longrightarrow>
     products s1 = products s \<and> orderItems s1 = orderItems s"
  by (auto simp: order_update_def Let_def split: option.splits sum.splits)

lemma update_order_status_valid:
  assumes "findUnique s (orderId_d data) = Some cur"
    and "status_d data = map_option status_name st"
  shows "update_order_status data s =
     (case adjust_inventory data (status cur) (isPaid cur)
             (orderId_d data, cur\<lparr>status := status_after cur st, isPaid := isPaid_after cur (isPaid_d data)\<rparr>)
             (s\<lparr>orders := (orders s)[orderId_d data :=
                   cur\<lparr>status := status_after cur st, isPaid := isPaid_after cur (isPaid_d data)\<rparr>],
                statusHistory := statusHistory s @
                  (case st of None \<Rightarrow> []
                   | Some v \<Rightarrow> [\<lparr>status_h = v,
                        note_h = Some (history_note (note_d data) (status cur) (status_name v)),
                        orderId_h = orderId_d data\<rparr>])\<rparr>) of
        (Inl e, s2) \<Rightarrow> (Inl e, s2)
      | (Inr u, s2) \<Rightarrow>
          (Inr (cur\<lparr>status := status_after cur st, isPaid := isPaid_after cur (isPaid_d data)\<rparr>), s2))"
  by (simp add: update_order_status_def assms(1) order_update_valid [OF assms] Let_def)

lemma update_order_status_invalid:
  assumes "findUnique s (orderId_d data) = Some cur"
    and "status_d data = Some x" and "parse_status x = None"
  shows "update_order_status data s = (Inl (InvalidEnumValue x), s)"
  by (simp add: update_order_status_def assms(1) order_update_invalid [OF assms] Let_def)

lemma update_order_status_snd:
  assumes "findUnique s (orderId_d data) = Some cur"
    and "order_update (orderId_d data) (status_d data) (isPaid_d data)
           (historyCreate data (status cur)) s = Inr (upd, s1)"
  shows "snd (update_order_status data s) =
         snd (adjust_inventory data (status cur) (isPaid cur) (orderId_d data, upd) s1)"
  by (simp add: update_order_status_def assms Let_def split: prod.splits sum.splits)

lemma items_create_ok:
  "list_all (\<lambda>item. products s (item_id item) \<noteq> None) lines \<Longrightarrow>
     items_create s lines =
       Inr (map (\<lambda>item. (quantity_or_1 (item_quantity item), item_id item)) lines)"
  by (induction lines) (auto simp: item_create_def)

lemma items_create_fail:
  "\<not> list_all (\<lambda>item. products s (item_id item) \<noteq> None) lines \<Longrightarrow>
     \<exists>pid. items_create s lines = Inl (ProductNotFound pid) \<and>
           products s pid = None \<and> pid \<in> item_id ` set lines"
proof (induction lines)
  case Nil
  then show ?case by simp
next
  case (Cons item rest)
  show ?case
  proof (cases "products s (item_id item)")
    case None
    then show ?thesis by (auto simp: item_create_def)
  next
    case (Some row)
    with Cons.prems have "\<not> list_all (\<lambda>item. products s (item_id item) \<noteq> None) rest"
      by simp
    from Cons.IH [OF this] obtain pid where
      "items_create s rest = Inl (ProductNotFound pid)" "products s pid = None"
      "pid \<in> item_id ` set rest"
      by blast
    then show ?thesis by (auto simp: item_create_def Some)
  qed
qed

lemma new_order_Inr:
  assumes "new_order tza now od s = (Inr oid, s')"
  shows "list_all (\<lambda>item. products s (item_id item) \<noteq> None) (panier od) \<and>
         list_all (\<lambda>item. within_Int (quantity_or_1 (item_quantity item))) (panier od) \<and>
         generateOrderNumber tza now s \<notin> number ` set (orders s) \<and>
         oid = length (orders s) \<and>
         s' = s\<lparr>orders := orders s @
                  [\<lparr>createdAt = now, number = generateOrderNumber tza now s,
                    status = NEW, isPaid = False\<rparr>],
                orderItems := orderItems s @
                  rev (map (\<lambda>item. \<lparr>quantity = quantity_or_1 (item_quantity item),
                                orderId = length (orders s), productId = item_id item\<rparr>)
                        (panier od)),
                statusHistory := statusHistory s @
                  [\<lparr>status_h = NEW, note_h = Some note_created, orderId_h = length (orders s)\<rparr>]\<rparr>"
proof (cases "list_all (\<lambda>item. products s (item_id item) \<noteq> None) (panier od)")
  case False
  from items_create_fail [OF this] assms show ?thesis
    by (auto simp: new_order_def Let_def split: sum.splits)
next
  case True
  from assms have "list_all (\<lambda>item. within_Int (quantity_or_1 (item_quantity item))) (panier od) \<and>
         generateOrderNumber tza now s \<notin> number ` set (orders s) \<and>
         oid = length (orders s) \<and>
         s' = s\<lparr>orders := orders s @
                  [\<lparr>createdAt = now, number = generateOrderNumber tza now s,
                    status = NEW, isPaid = False\<rparr>],
                orderItems := orderItems s @
                  rev (map (\<lambda>item. \<lparr>quantity = quantity_or_1 (item_quantity item),
                                orderId = length (orders s), productId = item_id item\<rparr>)
                        (panier od)),
                statusHistory := statusHistory s @
                  [\<lparr>status_h = NEW, note_h = Some note_created, orderId_h = length (orders s)\<rparr>]\<rparr>"
    by (auto simp: new_order_def Let_def items_create_ok [OF True] order_create_def
          o_def list_all_iff rev_map split: if_splits sum.splits)
  with True show ?thesis by (rule conjI)
qed

text \<open>Whatever the payload, a call that ends in an error has written nothing.\<close>

lemma new_order_Inl:
  "new_order tza now od s = (Inl e, s') \<Longrightarrow> s' = s"
  by (auto simp: new_order_def Let_def order_create_def split: sum.splits if_splits)

section \<open>What the adjuster does to the stock\<close>

lemma qty_total_nonneg: "list_all (\<lambda>item. 0 \<le> quantity item) xs \<Longrightarrow> 0 \<le> qty_total xs p"
  by (induction xs) (simp_all add: qty_total_Nil qty_total_Cons)

lemma within_Int_between:
  "within_Int a \<Longrightarrow> within_Int b \<Longrightarrow> a \<le> x \<Longrightarrow> x \<le> b \<Longrightarrow> within_Int x"
  by (simp add: within_Int_def)

text \<open>
  The two loops, for items that point to products and have no negative quantity,
  when every stock and every stock at the end of the loop fit the column: then
  every step fits, the loop ends without error, and each stock has moved by the
  quantities of the items of its product.
\<close>

lemma decrement_items_stock:
  "list_all (\<lambda>x. products s (productId (fst x)) \<noteq> None) xs \<Longrightarrow>
   list_all (\<lambda>x. 0 \<le> quantity (fst x)) xs \<Longrightarrow>
   \<forall>p row. products s p = Some row \<longrightarrow>
      within_Int (stock row) \<and> within_Int (stock row - qty_total (map fst xs) p) \<Longrightarrow>
   fst (decrement_items xs s) = Inr () \<and>
   (\<forall>p. map_option stock (products (snd (decrement_items xs s)) p) =
        map_option (\<lambda>row. stock row - qty_total (map fst xs) p) (products s p))"
proof (induction xs arbitrary: s)
  case Nil
  show ?case by (simp add: qty_total_Nil option.map_ident)
next
  case (Cons x xs)
  obtain item product where x: "x = (item, product)" by (cases x)
  from Cons.prems(1) obtain row where row: "products s (productId item) = Some row"
    by (auto simp: x)
  from Cons.prems(2) have q: "0 \<le> quantity item"
    and qs: "list_all (\<lambda>x. 0 \<le> quantity (fst x)) xs"
    by (simp_all add: x)
  have "list_all (\<lambda>item. 0 \<le> quantity item) (map fst xs)"
    using qs by (simp add: list_all_iff)
  then have nn: "0 \<le> qty_total (map fst xs) p" for p
    by (rule qty_total_nonneg)
  have room: "within_Int (stock r) \<and>
      within_Int (stock r - ((if productId item = p then quantity item else 0) +
                              qty_total (map fst xs) p))"
    if "products s p = Some r" for p r
    using Cons.prems(3) that by (simp add: x qty_total_Cons)
  have fit: "within_Int (stock row - quantity item)"
    using room [OF row] q nn [of "productId item"]
    by (auto simp: within_Int_def)
  define s1 where "s1 = s\<lparr>products := (products s)(productId item \<mapsto>
      row\<lparr>stock := stock row - quantity item, isAvailable := (stock product - quantity item > 0)\<rparr>)\<rparr>"
  have step: "decrement_items (x # xs) s = decrement_items xs s1"
    using fit by (simp add: x product_update_def row s1_def)
  have l1: "list_all (\<lambda>x. products s1 (productId (fst x)) \<noteq> None) xs"
    using Cons.prems(1) by (auto simp: s1_def list_all_iff)
  have r1: "\<forall>p r. products s1 p = Some r \<longrightarrow>
      within_Int (stock r) \<and> within_Int (stock r - qty_total (map fst xs) p)"
  proof (intro allI impI)
    fix p r
    assume a: "products s1 p = Some r"
    show "within_Int (stock r) \<and> within_Int (stock r - qty_total (map fst xs) p)"
    proof (cases "p = productId item")
      case True
      with a have "stock r = stock row - quantity item" by (auto simp: s1_def)
      with room [OF row] fit True show ?thesis by (auto simp: within_Int_def)
    next
      case False
      with a have "products s p = Some r" by (simp add: s1_def)
      from room [OF this] False show ?thesis by simp
    qed
  qed
  from Cons.IH [OF l1 qs r1] have ih1: "fst (decrement_items xs s1) = Inr ()"
    and ih2: "\<And>p. map_option stock (products (snd (decrement_items xs s1)) p) =
        map_option (\<lambda>row. stock row - qty_total (map fst xs) p) (products s1 p)"
    by auto
  show ?case
  proof (intro conjI allI)
    show "fst (decrement_items (x # xs) s) = Inr ()" by (simp add: step ih1)
  next
    fix p
    show "map_option stock (products (snd (decrement_items (x # xs) s)) p) =
        map_option (\<lambda>row. stock row - qty_total (map fst (x # xs)) p) (products s p)"
      unfolding step ih2
      by (cases "products s p") (auto simp: s1_def x qty_total_Cons row)
  qed
qed

lemma restore_items_stock:
  "list_all (\<lambda>x. products s (productId (fst x)) \<noteq> None) xs \<Longrightarrow>
   list_all (\<lambda>x. 0 \<le> quantity (fst x)) xs \<Longrightarrow>
   \<forall>p row. products s p = Some row \<longrightarrow>
      within_Int (stock row) \<and> within_Int (stock row + qty_total (map fst xs) p) \<Longrightarrow>
   fst (restore_items xs s) = Inr () \<and>
   (\<forall>p. map_option stock (products (snd (restore_items xs s)) p) =
        map_option (\<lambda>row. stock row + qty_total (map fst xs) p) (products s p)) \<and>
   (\<forall>p. map_option isAvailable (products (snd (restore_items xs s)) p) =
        map_option (\<lambda>row. p \<in> productId ` fst ` set xs \<or> isAvailable row) (products s p))"
proof (induction xs arbitrary: s)
  case Nil
  show ?case by (simp add: qty_total_Nil option.map_ident)
next
  case (Cons x xs)
  obtain item product where x: "x = (item, product)" by (cases x)
  from Cons.prems(1) obtain row where row: "products s (productId item) = Some row"
    by (auto simp: x)
  from Cons.prems(2) have q: "0 \<le> quantity item"
    and qs: "list_all (\<lambda>x. 0 \<le> quantity (fst x)) xs"
    by (simp_all add: x)
  have "list_all (\<lambda>item. 0 \<le> quantity item) (map fst xs)"
    using qs by (simp add: list_all_iff)
  then have nn: "0 \<le> qty_total (map fst xs) p" for p
    by (rule qty_total_nonneg)
  have room: "within_Int (stock r) \<and>
      within_Int (stock r + ((if productId item = p then quantity item else 0) +
                              qty_total (map fst xs) p))"
    if "products s p = Some r" for p r
    using Cons.prems(3) that by (simp add: x qty_total_Cons)
  have fit: "within_Int (stock row + quantity item)"
    using room [OF row] q nn [of "productId item"]
    by (auto simp: within_Int_def)
  define s1 where "s1 = s\<lparr>products := (products s)(productId item \<mapsto>
      row\<lparr>stock := stock row + quantity item, isAvailable := True\<rparr>)\<rparr>"
  have step: "restore_items (x # xs) s = restore_items xs s1"
    using fit by (simp add: x product_update_def row s1_def)
  have l1: "list_all (\<lambda>x. products s1 (productId (fst x)) \<noteq> None) xs"
    using Cons.prems(1) by (auto simp: s1_def list_all_iff)
  have r1: "\<forall>p r. products s1 p = Some r \<longrightarrow>
      within_Int (stock r) \<and> within_Int (stock r + qty_total (map fst xs) p)"
  proof (intro allI impI)
    fix p r
    assume a: "products s1 p = Some r"
    show "within_Int (stock r) \<and> within_Int (stock r + qty_total (map fst xs) p)"
    proof (cases "p = productId item")
      case True
      with a have "stock r = stock row + quantity item" by (auto simp: s1_def)
      with room [OF row] fit True show ?thesis by (auto simp: within_Int_def)
    next
      case False
      with a have "products s p = Some r" by (simp add: s1_def)
      from room [OF this] False show ?thesis by simp
    qed
  qed
  from Cons.IH [OF l1 qs r1] have ih1: "fst (restore_items xs s1) = Inr ()"
    and ih2: "\<And>p. map_option stock (products (snd (restore_items xs s1)) p) =
        map_option (\<lambda>row. stock row + qty_total (map fst xs) p) (products s1 p)"
    and ih3: "\<And>p. map_option isAvailable (products (snd (restore_items xs s1)) p) =
        map_option (\<lambda>row. p \<in> productId ` fst ` set xs \<or> isAvailable row) (products s1 p)"
    by auto
  show ?case
  proof (intro conjI allI)
    show "fst (restore_items (x # xs) s) = Inr ()" by (simp add: step ih1)
  next
    fix p
    show "map_option stock (products (snd (restore_items (x # xs) s)) p) =
        map_option (\<lambda>row. stock row + qty_total (map fst (x # xs)) p) (products s p)"
      unfolding step ih2
      by (cases "products s p") (auto simp: s1_def x qty_total_Cons row)
  next
    fix p
    show "map_option isAvailable (products (snd (restore_items (x # xs) s)) p) =
        map_option (\<lambda>row. p \<in> productId ` fst ` set (x # xs) \<or> isAvailable row) (products s p)"
      unfolding step ih3
      by (cases "products s p") (auto simp: s1_def x row)
  qed
qed

lemma findMany_items_linked:
  assumes "items_linked s oid"
  shows "\<exists>ys. findMany_items s oid = Inr ys \<and> map fst ys = items_of s oid \<and>
              list_all (\<lambda>x. products s (productId (fst x)) \<noteq> None) ys"
proof -
  from assms have l: "list_all (\<lambda>item. products s (productId item) \<noteq> None) (items_of s oid)"
    by (simp add: items_linked_def)
  from include_product_ok [OF l] obtain ys where
    ys: "include_product (products s) (items_of s oid) = Inr ys"
    by blast
  have m: "map fst ys = items_of s oid"
    using ys by (rule include_product_fst)
  have "list_all (\<lambda>item. products s (productId item) \<noteq> None) (map fst ys)"
    using l by (simp only: m)
  then have "list_all (\<lambda>x. products s (productId (fst x)) \<noteq> None) ys"
    by (simp add: list_all_iff)
  with ys m show ?thesis by (simp add: findMany_items_def)
qed

lemma updateProductStock_applied:
  assumes "isPaid (snd order) \<and> status (snd order) = PREPARING"
    and "items_linked s (fst order)"
    and "list_all (\<lambda>item. 0 \<le> quantity item) (items_of s (fst order))"
    and "\<forall>p row. products s p = Some row \<longrightarrow>
           within_Int (stock row) \<and>
           within_Int (stock row - qty_total (items_of s (fst order)) p)"
  shows "fst (updateProductStock order s) = Inr () \<and>
         (\<forall>p. map_option stock (products (snd (updateProductStock order s)) p) =
              map_option (\<lambda>row. stock row - qty_total (items_of s (fst order)) p) (products s p))"
proof -
  from findMany_items_linked [OF assms(2)] obtain ys where
    ys: "findMany_items s (fst order) = Inr ys" "map fst ys = items_of s (fst order)"
    "list_all (\<lambda>x. products s (productId (fst x)) \<noteq> None) ys"
    by blast
  have u: "updateProductStock order s = decrement_items ys s"
    using assms(1) by (simp add: updateProductStock_def ys(1))
  have "list_all (\<lambda>item. 0 \<le> quantity item) (map fst ys)"
    using assms(3) by (simp only: ys(2))
  then have q: "list_all (\<lambda>x. 0 \<le> quantity (fst x)) ys"
    by (simp add: list_all_iff)
  have r: "\<forall>p row. products s p = Some row \<longrightarrow>
      within_Int (stock row) \<and> within_Int (stock row - qty_total (map fst ys) p)"
    using assms(4) by (simp only: ys(2))
  from decrement_items_stock [OF ys(3) q r] show ?thesis by (simp add: u ys(2))
qed

lemma restoreProductStock_applied:
  assumes "shouldRestoreStock (snd order) prev"
    and "items_linked s (fst order)"
    and "list_all (\<lambda>item. 0 \<le> quantity item) (items_of s (fst order))"
    and "\<forall>p row. products s p = Some row \<longrightarrow>
           within_Int (stock row) \<and>
           within_Int (stock row + qty_total (items_of s (fst order)) p)"
  shows "fst (restoreProductStock order prev s) = Inr () \<and>
         (\<forall>p. map_option stock (products (snd (restoreProductStock order prev s)) p) =
              map_option (\<lambda>row. stock row + qty_total (items_of s (fst order)) p) (products s p)) \<and>
         (\<forall>p. map_option isAvailable (products (snd (restoreProductStock order prev s)) p) =
              map_option (\<lambda>row. p \<in> productId ` set (items_of s (fst order)) \<or> isAvailable row)
                (products s p))"
proof -
  from findMany_items_linked [OF assms(2)] obtain ys where
    ys: "findMany_items s (fst order) = Inr ys" "map fst ys = items_of s (fst order)"
    "list_all (\<lambda>x. products s (productId (fst x)) \<noteq> None) ys"
    by blast
  have r: "restoreProductStock order prev s = restore_items ys s"
    using assms(1) by (simp add: restoreProductStock_def ys(1))
  have i: "fst ` set ys = set (items_of s (fst order))"
    using ys(2) by (metis set_map)
  have "list_all (\<lambda>item. 0 \<le> quantity item) (map fst ys)"
    using assms(3) by (simp only: ys(2))
  then have q: "list_all (\<lambda>x. 0 \<le> quantity (fst x)) ys"
    by (simp add: list_all_iff)
  have w: "\<forall>p row. products s p = Some row \<longrightarrow>
      within_Int (stock row) \<and> within_Int (stock row + qty_total (map fst ys) p)"
    using assms(4) by (simp only: ys(2))
  from restore_items_stock [OF ys(3) q w] show ?thesis
    by (simp add: r ys(2) i)
qed

lemma restoreProductStock_skipped:
  "\<not> shouldRestoreStock (snd order) prev \<Longrightarrow> restoreProductStock order prev s = (Inr (), s)"
  by (simp add: restoreProductStock_def)

lemma stock_room_sides:
  assumes "list_all (\<lambda>item. 0 \<le> quantity item) xs"
    and "\<forall>p row. products s p = Some row \<longrightarrow>
           within_Int (stock row - qty_total xs p) \<and> within_Int (stock row + qty_total xs p)"
  shows "\<forall>p row. products s p = Some row \<longrightarrow>
           within_Int (stock row) \<and> within_Int (stock row - qty_total xs p)"
    and "\<forall>p row. products s p = Some row \<longrightarrow>
           within_Int (stock row) \<and> within_Int (stock row + qty_total xs p)"
proof -
  have n: "0 \<le> qty_total xs p" for p
    using assms(1) by (rule qty_total_nonneg)
  show "\<forall>p row. products s p = Some row \<longrightarrow>
           within_Int (stock row) \<and> within_Int (stock row - qty_total xs p)"
  proof (intro allI impI)
    fix p row
    assume "products s p = Some row"
    with assms(2) have
      "within_Int (stock row - qty_total xs p) \<and> within_Int (stock row + qty_total xs p)"
      by blast
    with n [of p] show "within_Int (stock row) \<and> within_Int (stock row - qty_total xs p)"
      by (simp add: within_Int_def)
  qed
  show "\<forall>p row. products s p = Some row \<longrightarrow>
           within_Int (stock row) \<and> within_Int (stock row + qty_total xs p)"
  proof (intro allI impI)
    fix p row
    assume "products s p = Some row"
    with assms(2) have
      "within_Int (stock row - qty_total xs p) \<and> within_Int (stock row + qty_total xs p)"
      by blast
    with n [of p] show "within_Int (stock row) \<and> within_Int (stock row + qty_total xs p)"
      by (simp add: within_Int_def)
  qed
qed

text \<open>
  The block of the two guarded calls, for an order whose items all point to a
  product and have no negative quantity, when every stock less and every stock
  plus the quantities of the order fits the column: it ends without error, and
  each stock is lowered when both guards of the decrement hold, raised when both
  guards of the restore hold, and else kept.
\<close>

lemma adjust_inventory_stock:
  assumes "items_linked s oid"
    and "list_all (\<lambda>item. 0 \<le> quantity item) (items_of s oid)"
    and "\<forall>p row. products s p = Some row \<longrightarrow>
           within_Int (stock row - qty_total (items_of s oid) p) \<and>
           within_Int (stock row + qty_total (items_of s oid) p)"
  shows "fst (adjust_inventory data (status cur) (isPaid cur) (oid, upd) s) = Inr () \<and>
     (\<forall>p. map_option stock
            (products (snd (adjust_inventory data (status cur) (isPaid cur) (oid, upd) s)) p) =
          map_option (\<lambda>row.
             if decrement_applies data cur upd then stock row - qty_total (items_of s oid) p
             else if restore_applies data cur upd then stock row + qty_total (items_of s oid) p
             else stock row) (products s p))"
proof (cases "isPaid upd \<and> status upd = PREPARING")
  case True
  then have t: "isPaid (snd (oid, upd)) \<and> status (snd (oid, upd)) = PREPARING" by simp
  have l: "items_linked s (fst (oid, upd))" using assms(1) by simp
  have q: "list_all (\<lambda>item. 0 \<le> quantity item) (items_of s (fst (oid, upd)))"
    using assms(2) by simp
  have w: "\<forall>p row. products s p = Some row \<longrightarrow>
           within_Int (stock row) \<and>
           within_Int (stock row - qty_total (items_of s (fst (oid, upd))) p)"
    using stock_room_sides(1) [OF assms(2,3)] by simp
  show ?thesis
  proof (cases "decrement_trigger data (status cur) upd")
    case dt: True
    obtain r s1 where r: "updateProductStock (oid, upd) s = (r, s1)"
      by (cases "updateProductStock (oid, upd) s")
    from updateProductStock_applied [OF t l q w] r have r1: "r = Inr ()"
      and st: "\<And>p. map_option stock (products s1 p) =
              map_option (\<lambda>row. stock row - qty_total (items_of s oid) p) (products s p)"
      by simp_all
    have "adjust_inventory data (status cur) (isPaid cur) (oid, upd) s = (Inr (), s1)"
      using dt by (simp add: adjust_inventory_def r r1 restoreProductStock_idle [OF t])
    then show ?thesis
      using dt True by (simp add: st decrement_applies_def)
  next
    case df: False
    have "adjust_inventory data (status cur) (isPaid cur) (oid, upd) s = (Inr (), s)"
      using df by (simp add: adjust_inventory_def restoreProductStock_idle [OF t])
    moreover have "\<not> restore_applies data cur upd"
      using True by (simp add: restore_applies_def shouldRestoreStock_def)
    ultimately show ?thesis
      using df by (simp add: decrement_applies_def option.map_ident)
  qed
next
  case False
  then have f: "\<not> (isPaid (snd (oid, upd)) \<and> status (snd (oid, upd)) = PREPARING)" by simp
  have l: "items_linked s (fst (oid, upd))" using assms(1) by simp
  have q: "list_all (\<lambda>item. 0 \<le> quantity item) (items_of s (fst (oid, upd)))"
    using assms(2) by simp
  have w: "\<forall>p row. products s p = Some row \<longrightarrow>
           within_Int (stock row) \<and>
           within_Int (stock row + qty_total (items_of s (fst (oid, upd))) p)"
    using stock_room_sides(2) [OF assms(2,3)] by simp
  have nd: "\<not> decrement_applies data cur upd"
    using False by (simp add: decrement_applies_def)
  have a: "adjust_inventory data (status cur) (isPaid cur) (oid, upd) s =
      (if restore_trigger data (status cur) (isPaid cur)
       then restoreProductStock (oid, upd) (status cur) s else (Inr (), s))"
    by (simp add: adjust_inventory_def updateProductStock_idle [OF f])
  show ?thesis
  proof (cases "restore_applies data cur upd")
    case True
    then have sr: "shouldRestoreStock (snd (oid, upd)) (status cur)"
      and rt: "restore_trigger data (status cur) (isPaid cur)"
      by (simp_all add: restore_applies_def)
    from restoreProductStock_applied [OF sr l q w] show ?thesis
      using True nd by (simp add: a rt)
  next
    case ra: False
    have "adjust_inventory data (status cur) (isPaid cur) (oid, upd) s = (Inr (), s)"
    proof (cases "restore_trigger data (status cur) (isPaid cur)")
      case True
      with ra have "\<not> shouldRestoreStock (snd (oid, upd)) (status cur)"
        by (simp add: restore_applies_def)
      from restoreProductStock_skipped [OF this] show ?thesis by (simp add: a)
    next
      case False
      then show ?thesis by (simp add: a)
    qed
    then show ?thesis using ra nd by (simp add: option.map_ident)
  qed
qed

lemma adjust_inventory_available:
  assumes "items_linked s oid" and "restore_applies data cur upd"
    and "list_all (\<lambda>item. 0 \<le> quantity item) (items_of s oid)"
    and "\<forall>p row. products s p = Some row \<longrightarrow>
           within_Int (stock row - qty_total (items_of s oid) p) \<and>
           within_Int (stock row + qty_total (items_of s oid) p)"
  shows "\<forall>p. map_option isAvailable
            (products (snd (adjust_inventory data (status cur) (isPaid cur) (oid, upd) s)) p) =
          map_option (\<lambda>row. p \<in> productId ` set (items_of s oid) \<or> isAvailable row) (products s p)"
proof -
  from assms(2) have sr: "shouldRestoreStock (snd (oid, upd)) (status cur)"
    and rt: "restore_trigger data (status cur) (isPaid cur)"
    by (simp_all add: restore_applies_def)
  from sr have f: "\<not> (isPaid (snd (oid, upd)) \<and> status (snd (oid, upd)) = PREPARING)"
    by (auto simp: shouldRestoreStock_def)
  have l: "items_linked s (fst (oid, upd))" using assms(1) by simp
  have q: "list_all (\<lambda>item. 0 \<le> quantity item) (items_of s (fst (oid, upd)))"
    using assms(3) by simp
  have w: "\<forall>p row. products s p = Some row \<longrightarrow>
           within_Int (stock row) \<and>
           within_Int (stock row + qty_total (items_of s (fst (oid, upd))) p)"
    using stock_room_sides(2) [OF assms(3,4)] by simp
  have a: "adjust_inventory data (status cur) (isPaid cur) (oid, upd) s =
      restoreProductStock (oid, upd) (status cur) s"
    using rt by (simp add: adjust_inventory_def updateProductStock_idle [OF f])
  from restoreProductStock_applied [OF sr l q w] show ?thesis
    by (simp add: a)
qed

text \<open>The same for the whole handler: the write of the order touches no product.\<close>

lemma update_order_status_stock:
  assumes "findUnique s (orderId_d data) = Some cur"
    and "status_d data = map_option status_name st"
    and "items_linked s (orderId_d data)"
    and "list_all (\<lambda>item. 0 \<le> quantity item) (items_of s (orderId_d data))"
    and "\<forall>p row. products s p = Some row \<longrightarrow>
           within_Int (stock row - qty_total (items_of s (orderId_d data)) p) \<and>
           within_Int (stock row + qty_total (items_of s (orderId_d data)) p)"
  shows "update_order_status data s =
           (Inr (cur\<lparr>status := status_after cur st, isPaid := isPaid_after cur (isPaid_d data)\<rparr>),
            snd (update_order_status data s)) \<and>
     (\<forall>p. map_option stock (products (snd (update_order_status data s)) p) =
          map_option (\<lambda>row.
             if decrement_applies data cur
                  (cur\<lparr>status := status_after cur st, isPaid := isPaid_after cur (isPaid_d data)\<rparr>)
             then stock row - qty_total (items_of s (orderId_d data)) p
             else if restore_applies data cur
                  (cur\<lparr>status := status_after cur st, isPaid := isPaid_after cur (isPaid_d data)\<rparr>)
             then stock row + qty_total (items_of s (orderId_d data)) p
             else stock row) (products s p)) \<and>
     (restore_applies data cur
          (cur\<lparr>status := status_after cur st, isPaid := isPaid_after cur (isPaid_d data)\<rparr>) \<longrightarrow>
      (\<forall>p. map_option isAvailable (products (snd (update_order_status data s)) p) =
          map_option (\<lambda>row. p \<in> productId ` set (items_of s (orderId_d data)) \<or> isAvailable row)
            (products s p)))"
proof -
  define upd where "upd = cur\<lparr>status := status_after cur st, isPaid := isPaid_after cur (isPaid_d data)\<rparr>"
  define s1 where "s1 = s\<lparr>orders := (orders s)[orderId_d data := upd],
                statusHistory := statusHistory s @
                  (case st of None \<Rightarrow> []
                   | Some v \<Rightarrow> [\<lparr>status_h = v,
                        note_h = Some (history_note (note_d data) (status cur) (status_name v)),
                        orderId_h = orderId_d data\<rparr>])\<rparr>"
  have p1: "products s1 = products s" and i1: "items_of s1 (orderId_d data) = items_of s (orderId_d data)"
    by (simp_all add: s1_def items_of_def)
  have l1: "items_linked s1 (orderId_d data)"
    using assms(3) by (simp add: items_linked_def p1 i1)
  have q1: "list_all (\<lambda>item. 0 \<le> quantity item) (items_of s1 (orderId_d data))"
    using assms(4) by (simp only: i1)
  have w1: "\<forall>p row. products s1 p = Some row \<longrightarrow>
           within_Int (stock row - qty_total (items_of s1 (orderId_d data)) p) \<and>
           within_Int (stock row + qty_total (items_of s1 (orderId_d data)) p)"
    using assms(5) by (simp only: i1 p1)
  have u: "update_order_status data s =
     (case adjust_inventory data (status cur) (isPaid cur) (orderId_d data, upd) s1 of
        (Inl e, s2) \<Rightarrow> (Inl e, s2)
      | (Inr u, s2) \<Rightarrow> (Inr upd, s2))"
    unfolding upd_def s1_def by (rule update_order_status_valid [OF assms(1,2)])
  obtain r s2 where a: "adjust_inventory data (status cur) (isPaid cur) (orderId_d data, upd) s1 = (r, s2)"
    by (rule prod.exhaust)
  from adjust_inventory_stock [OF l1 q1 w1, of data cur upd, unfolded p1 i1] a have r: "r = Inr ()"
    and st: "\<And>p. map_option stock (products s2 p) =
          map_option (\<lambda>row.
             if decrement_applies data cur upd then stock row - qty_total (items_of s (orderId_d data)) p
             else if restore_applies data cur upd then stock row + qty_total (items_of s (orderId_d data)) p
             else stock row) (products s p)"
    by simp_all
  have res: "update_order_status data s = (Inr upd, s2)"
    by (simp add: u a r)
  have av: "\<forall>p. map_option isAvailable (products s2 p) =
          map_option (\<lambda>row. p \<in> productId ` set (items_of s (orderId_d data)) \<or> isAvailable row)
            (products s p)" if "restore_applies data cur upd"
    using adjust_inventory_available [OF l1 that q1 w1] a by (simp add: p1 i1)
  show ?thesis
    unfolding upd_def [symmetric]
    using st av by (simp add: res)
qed

lemma decrement_applies_iff:
  assumes "\<not> (status cur = PREPARING \<and> isPaid cur)"
    and "status_d data = map_option status_name st"
  shows "decrement_applies data cur
           (cur\<lparr>status := status_after cur st, isPaid := isPaid_after cur (isPaid_d data)\<rparr>) \<longleftrightarrow>
         status_after cur st = PREPARING \<and> isPaid_after cur (isPaid_d data)"
proof (cases st)
  case None
  with assms show ?thesis
    by (cases "isPaid_d data")
       (auto simp: decrement_applies_def decrement_trigger_def status_after_def isPaid_after_def)
next
  case (Some v)
  with assms show ?thesis
    by (cases "isPaid_d data")
       (auto simp: decrement_applies_def decrement_trigger_def status_after_def isPaid_after_def
          status_name_PREPARING)
qed

lemma restore_applies_iff:
  assumes "status_d data = map_option status_name st"
  shows "restore_applies data cur
           (cur\<lparr>status := status_after cur st, isPaid := isPaid_after cur (isPaid_d data)\<rparr>) \<longleftrightarrow>
         status cur = PREPARING \<and>
         (st = Some CANCELLED \<or>
          (isPaid cur \<and> isPaid_d data = Some False \<and> (st = None \<or> st = Some PREPARING)))"
proof (cases st)
  case None
  with assms show ?thesis
    by (cases "isPaid_d data")
       (auto simp: restore_applies_def restore_trigger_def shouldRestoreStock_def
          status_after_def isPaid_after_def)
next
  case (Some v)
  with assms show ?thesis
    by (cases "isPaid_d data")
       (auto simp: restore_applies_def restore_trigger_def shouldRestoreStock_def
          status_after_def isPaid_after_def status_name_CANCELLED)
qed

lemma restore_excludes_decrement:
  "restore_applies data cur upd \<Longrightarrow> \<not> decrement_applies data cur upd"
  by (auto simp: restore_applies_def decrement_applies_def shouldRestoreStock_def)

lemma decrement_items_nonneg:
  "list_all (\<lambda>x. 0 \<le> quantity (fst x)) xs \<Longrightarrow>
   \<forall>p row. products s p = Some row \<longrightarrow> qty_total (map fst xs) p \<le> stock row \<Longrightarrow>
   \<forall>p row. products (snd (decrement_items xs s)) p = Some row \<longrightarrow> 0 \<le> stock row"
proof (induction xs arbitrary: s)
  case Nil
  then show ?case by (simp add: qty_total_Nil)
next
  case (Cons x xs)
  obtain item product where x: "x = (item, product)" by (cases x)
  from Cons.prems(1) have q: "0 \<le> quantity item" and rest: "list_all (\<lambda>x. 0 \<le> quantity (fst x)) xs"
    by (simp_all add: x)
  have "list_all (\<lambda>item. 0 \<le> quantity item) (map fst xs)"
    using rest by (simp add: list_all_iff)
  then have nn: "0 \<le> qty_total (map fst xs) p" for p
    by (rule qty_total_nonneg)
  have cover: "(if productId item = p then quantity item else 0) + qty_total (map fst xs) p \<le> stock row"
    if "products s p = Some row" for p row
    using Cons.prems(2) that by (simp add: x qty_total_Cons)
  show ?case
  proof (cases "product_update (productId item)
             (\<lambda>row. row\<lparr>stock := stock row - quantity item,
                       isAvailable := (stock product - quantity item > 0)\<rparr>) s")
    case (Inl e)
    have "0 \<le> stock row" if "products s p = Some row" for p row
      using cover [OF that] nn [of p] q by (simp split: if_splits)
    moreover have "decrement_items (x # xs) s = (Inl e, s)"
      by (simp only: x decrement_items.simps Inl sum.case)
    ultimately show ?thesis by simp
  next
    case (Inr s1)
    from product_update_Inr [OF Inr] obtain row0 where
      Some: "products s (productId item) = Some row0"
      and s1_def: "s1 = s\<lparr>products := (products s)(productId item \<mapsto>
        row0\<lparr>stock := stock row0 - quantity item,
              isAvailable := (stock product - quantity item > 0)\<rparr>)\<rparr>"
      by blast
    have step: "decrement_items (x # xs) s = decrement_items xs s1"
      by (simp only: x decrement_items.simps Inr sum.case)
    have "\<forall>p row. products s1 p = Some row \<longrightarrow> qty_total (map fst xs) p \<le> stock row"
    proof (intro allI impI)
      fix p row
      assume a: "products s1 p = Some row"
      show "qty_total (map fst xs) p \<le> stock row"
      proof (cases "p = productId item")
        case True
        with a have "stock row = stock row0 - quantity item" by (auto simp: s1_def)
        with cover [OF Some] True show ?thesis by simp
      next
        case False
        with a have "products s p = Some row" by (simp add: s1_def)
        from cover [OF this] False show ?thesis by simp
      qed
    qed
    from Cons.IH [OF rest this] show ?thesis by (simp only: step)
  qed
qed

lemma restore_items_nonneg:
  "list_all (\<lambda>x. 0 \<le> quantity (fst x)) xs \<Longrightarrow>
   \<forall>p row. products s p = Some row \<longrightarrow> 0 \<le> stock row \<Longrightarrow>
   \<forall>p row. products (snd (restore_items xs s)) p = Some row \<longrightarrow> 0 \<le> stock row"
proof (induction xs arbitrary: s)
  case Nil
  then show ?case by simp
next
  case (Cons x xs)
  obtain item product where x: "x = (item, product)" by (cases x)
  from Cons.prems(1) have q: "0 \<le> quantity item" and rest: "list_all (\<lambda>x. 0 \<le> quantity (fst x)) xs"
    by (simp_all add: x)
  show ?case
  proof (cases "product_update (productId item)
             (\<lambda>row. row\<lparr>stock := stock row + quantity item, isAvailable := True\<rparr>) s")
    case (Inl e)
    have "restore_items (x # xs) s = (Inl e, s)"
      by (simp only: x restore_items.simps Inl sum.case)
    with Cons.prems(2) show ?thesis by simp
  next
    case (Inr s1)
    from product_update_Inr [OF Inr] obtain row0 where
      Some: "products s (productId item) = Some row0"
      and s1_def: "s1 = s\<lparr>products := (products s)(productId item \<mapsto>
        row0\<lparr>stock := stock row0 + quantity item, isAvailable := True\<rparr>)\<rparr>"
      by blast
    have step: "restore_items (x # xs) s = restore_items xs s1"
      by (simp only: x restore_items.simps Inr sum.case)
    have "0 \<le> stock row0" using Cons.prems(2) Some by blast
    with q Cons.prems(2) have "\<forall>p row. products s1 p = Some row \<longrightarrow> 0 \<le> stock row"
      by (auto simp: s1_def)
    from Cons.IH [OF rest this] show ?thesis by (simp only: step)
  qed
qed

lemma findMany_items_fst: "findMany_items s oid = Inr ys \<Longrightarrow> map fst ys = items_of s oid"
  by (simp add: findMany_items_def include_product_fst)

lemma updateProductStock_nonneg:
  assumes "list_all (\<lambda>item. 0 \<le> quantity item) (items_of s (fst order))"
    and "\<forall>p row. products s p = Some row \<longrightarrow>
           0 \<le> stock row \<and> qty_total (items_of s (fst order)) p \<le> stock row"
  shows "\<forall>p row. products (snd (updateProductStock order s)) p = Some row \<longrightarrow> 0 \<le> stock row"
proof (cases "findMany_items s (fst order)")
  case (Inl e)
  with assms(2) show ?thesis by (simp add: updateProductStock_def)
next
  case (Inr ys)
  from findMany_items_fst [OF Inr] have m: "map fst ys = items_of s (fst order)" .
  have "list_all (\<lambda>item. 0 \<le> quantity item) (map fst ys)"
    using assms(1) by (simp only: m)
  then have a: "list_all (\<lambda>x. 0 \<le> quantity (fst x)) ys"
    by (simp add: list_all_iff)
  have b: "\<forall>p row. products s p = Some row \<longrightarrow> qty_total (map fst ys) p \<le> stock row"
    using assms(2) by (simp add: m)
  from decrement_items_nonneg [OF a b] assms(2) show ?thesis
    by (simp add: updateProductStock_def Inr)
qed

lemma restoreProductStock_nonneg:
  assumes "list_all (\<lambda>item. 0 \<le> quantity item) (items_of s (fst order))"
    and "\<forall>p row. products s p = Some row \<longrightarrow> 0 \<le> stock row"
  shows "\<forall>p row. products (snd (restoreProductStock order prev s)) p = Some row \<longrightarrow> 0 \<le> stock row"
proof (cases "findMany_items s (fst order)")
  case (Inl e)
  with assms(2) show ?thesis by (simp add: restoreProductStock_def)
next
  case (Inr ys)
  from findMany_items_fst [OF Inr] have m: "map fst ys = items_of s (fst order)" .
  have "list_all (\<lambda>item. 0 \<le> quantity item) (map fst ys)"
    using assms(1) by (simp only: m)
  then have a: "list_all (\<lambda>x. 0 \<le> quantity (fst x)) ys"
    by (simp add: list_all_iff)
  from restore_items_nonneg [OF a assms(2)] assms(2) show ?thesis
    by (simp add: restoreProductStock_def Inr)
qed

lemma new_order_products: "products (snd (new_order tza now od s)) = products s"
  by (simp add: new_order_def order_create_def Let_def split: sum.splits)

text \<open>The shop after the morning's order, written out.\<close>

lemma shop_ordered_literal:
  "shop_ordered =
     \<lparr>products = products shop,
      orders = [\<lparr>createdAt = 1741338000000, number = ''20250307-001'', status = NEW,
                 isPaid = False\<rparr>],
      orderItems = [\<lparr>quantity = 1, orderId = 0, productId = ''B''\<rparr>,
                    \<lparr>quantity = 3, orderId = 0, productId = ''A''\<rparr>],
      statusHistory = [\<lparr>status_h = NEW, note_h = Some note_created, orderId_h = 0\<rparr>]\<rparr>"
proof -
  have g: "generateOrderNumber tza_paris morning shop = ''20250307-001''"
    by code_simp
  have m: "mapPaymentMethod (paiement submission) = Inr CARD"
    by code_simp
  have l: "list_all (\<lambda>item. products shop (item_id item) \<noteq> None) (panier submission)"
    by (simp add: shop_def cart_def submission_def)
  show ?thesis
    by (simp add: shop_ordered_def new_order_def Let_def g m items_create_ok [OF l] order_create_def)
       (simp add: shop_def cart_def submission_def morning_def within_Int_def)
qed

declare shop_ordered_literal [code]

lemma shop_ordered_facts:
  "findUnique shop_ordered 0 =
     Some \<lparr>createdAt = 1741338000000, number = ''20250307-001'', status = NEW, isPaid = False\<rparr>"
  "items_of shop_ordered 0 =
     [\<lparr>quantity = 1, orderId = 0, productId = ''B''\<rparr>, \<lparr>quantity = 3, orderId = 0, productId = ''A''\<rparr>]"
  "products shop_ordered = products shop"
  "items_linked shop_ordered 0"
proof -
  show "findUnique shop_ordered 0 =
     Some \<lparr>createdAt = 1741338000000, number = ''20250307-001'', status = NEW, isPaid = False\<rparr>"
    by code_simp
  show "items_of shop_ordered 0 =
     [\<lparr>quantity = 1, orderId = 0, productId = ''B''\<rparr>, \<lparr>quantity = 3, orderId = 0, productId = ''A''\<rparr>]"
    by code_simp
  show "products shop_ordered = products shop"
    by (simp add: shop_ordered_def new_order_products)
  show "items_linked shop_ordered 0"
    by code_simp
qed

lemma shop_prepared_paid_facts:
  "findUnique shop_prepared_paid 0 =
     Some \<lparr>createdAt = 1741338000000, number = ''20250307-001'', status = PREPARING, isPaid = True\<rparr>"
  "items_of shop_prepared_paid 0 =
     [\<lparr>quantity = 1, orderId = 0, productId = ''B''\<rparr>, \<lparr>quantity = 3, orderId = 0, productId = ''A''\<rparr>]"
  "products shop_prepared_paid ''A'' = Some \<lparr>stock = 7, isAvailable = True\<rparr>"
  "products shop_prepared_paid ''B'' = Some \<lparr>stock = 0, isAvailable = False\<rparr>"
  "items_linked shop_prepared_paid 0"
  by code_simp+

lemma shop_preparing_facts:
  "findUnique shop_preparing 0 =
     Some \<lparr>createdAt = 1741338000000, number = ''20250307-001'', status = PREPARING, isPaid = False\<rparr>"
  "items_of shop_preparing 0 =
     [\<lparr>quantity = 1, orderId = 0, productId = ''B''\<rparr>, \<lparr>quantity = 3, orderId = 0, productId = ''A''\<rparr>]"
  "products shop_preparing ''A'' = Some \<lparr>stock = 10, isAvailable = True\<rparr>"
  "products shop_preparing ''B'' = Some \<lparr>stock = 1, isAvailable = True\<rparr>"
  "items_linked shop_preparing 0"
  by code_simp+

text \<open>
  For a product of a shop whose stocks are \<open>a\<close> and \<open>b\<close>, and an order of \<open>x\<close> and
  \<open>y\<close> pieces: what the hypotheses on the stock say there.
\<close>

lemma shop_products_cases:
  "products shop p = Some row \<Longrightarrow>
     (p = ''A'' \<and> row = \<lparr>stock = 10, isAvailable = True\<rparr>) \<or>
     (p = ''B'' \<and> row = \<lparr>stock = 1, isAvailable = True\<rparr>)"
  by (auto simp: shop_def split: if_splits)

lemma shop_ordered_room:
  "list_all (\<lambda>item. 0 \<le> quantity item) (items_of shop_ordered 0)"
  "\<forall>p row. products shop_ordered p = Some row \<longrightarrow>
     within_Int (stock row - qty_total (items_of shop_ordered 0) p) \<and>
     within_Int (stock row + qty_total (items_of shop_ordered 0) p)"
  by (auto simp: shop_ordered_facts(2,3) qty_total_def within_Int_def dest!: shop_products_cases)

lemma shop_prepared_paid_stock:
  assumes "products shop_prepared_paid p = Some row"
  shows "(p = ''A'' \<and> stock row = 7) \<or> (p = ''B'' \<and> stock row = 0)"
proof -
  have f: "orderId_d prepare_paid = 0" "isPaid_d prepare_paid = Some True"
    "status_d prepare_paid = map_option status_name (Some PREPARING)"
    by (simp_all add: prepare_paid_def)
  have h1: "findUnique shop_ordered (orderId_d prepare_paid) =
     Some \<lparr>createdAt = 1741338000000, number = ''20250307-001'', status = NEW, isPaid = False\<rparr>"
    using shop_ordered_facts(1) by (simp only: f)
  have h3: "items_linked shop_ordered (orderId_d prepare_paid)"
    using shop_ordered_facts(4) by (simp only: f)
  have h4: "list_all (\<lambda>item. 0 \<le> quantity item) (items_of shop_ordered (orderId_d prepare_paid))"
    using shop_ordered_room(1) by (simp only: f)
  have h5: "\<forall>p row. products shop_ordered p = Some row \<longrightarrow>
     within_Int (stock row - qty_total (items_of shop_ordered (orderId_d prepare_paid)) p) \<and>
     within_Int (stock row + qty_total (items_of shop_ordered (orderId_d prepare_paid)) p)"
    using shop_ordered_room(2) by (simp only: f)
  have d: "decrement_applies prepare_paid
     \<lparr>createdAt = 1741338000000, number = ''20250307-001'', status = NEW, isPaid = False\<rparr>
     (\<lparr>createdAt = 1741338000000, number = ''20250307-001'', status = NEW, isPaid = False\<rparr>
        \<lparr>status := status_after \<lparr>createdAt = 1741338000000, number = ''20250307-001'',
                       status = NEW, isPaid = False\<rparr> (Some PREPARING),
          isPaid := isPaid_after \<lparr>createdAt = 1741338000000, number = ''20250307-001'',
                       status = NEW, isPaid = False\<rparr> (isPaid_d prepare_paid)\<rparr>)"
    by (simp add: decrement_applies_def decrement_trigger_def prepare_paid_def
          status_after_def isPaid_after_def)
  note u = update_order_status_stock [OF h1 f(3) h3 h4 h5, THEN conjunct2, THEN conjunct1,
      rule_format, of p]
  have "map_option stock (products shop_prepared_paid p) =
        map_option (\<lambda>row. stock row - qty_total (items_of shop_ordered 0) p) (products shop p)"
    using u d by (simp add: shop_prepared_paid_def f(1) shop_ordered_facts(3))
  with assms obtain row0 where "products shop p = Some row0"
    and "stock row = stock row0 - qty_total (items_of shop_ordered 0) p"
    by (cases "products shop p") auto
  then show ?thesis
    by (auto simp: shop_ordered_facts(2) qty_total_def dest!: shop_products_cases)
qed

lemma shop_prepared_paid_room:
  "list_all (\<lambda>item. 0 \<le> quantity item) (items_of shop_prepared_paid 0)"
  "\<forall>p row. products shop_prepared_paid p = Some row \<longrightarrow>
     within_Int (stock row - qty_total (items_of shop_prepared_paid 0) p) \<and>
     within_Int (stock row + qty_total (items_of shop_prepared_paid 0) p)"
  by (auto simp: shop_prepared_paid_facts(2) qty_total_def within_Int_def
        dest!: shop_prepared_paid_stock)

section \<open>The items keep pointing to products\<close>

text \<open>
  No handler removes a product, and \<^verbatim>\<open>new_order\<close> creates items only for products
  it has found. So in every store that the two handlers make out of a store without
  dangling items, the items of every order point to products.
\<close>

lemma product_update_keeps:
  "product_update pid f s = Inr s' \<Longrightarrow> products s p \<noteq> None \<Longrightarrow> products s' p \<noteq> None"
  by (auto simp: product_update_def split: option.splits if_splits)

lemma decrement_items_keeps:
  "products s p \<noteq> None \<Longrightarrow> products (snd (decrement_items xs s)) p \<noteq> None"
proof (induction xs arbitrary: s)
  case Nil
  then show ?case by simp
next
  case (Cons x xs)
  obtain item product where x: "x = (item, product)" by (cases x)
  show ?case
  proof (cases "product_update (productId item)
             (\<lambda>row. row\<lparr>stock := stock row - quantity item,
                       isAvailable := (stock product - quantity item > 0)\<rparr>) s")
    case (Inl e)
    have "decrement_items (x # xs) s = (Inl e, s)"
      by (simp only: x decrement_items.simps Inl sum.case)
    with Cons.prems show ?thesis by simp
  next
    case (Inr s1)
    have step: "decrement_items (x # xs) s = decrement_items xs s1"
      by (simp only: x decrement_items.simps Inr sum.case)
    from product_update_keeps [OF Inr Cons.prems] have "products s1 p \<noteq> None" .
    from Cons.IH [OF this] show ?thesis unfolding step .
  qed
qed

lemma restore_items_keeps:
  "products s p \<noteq> None \<Longrightarrow> products (snd (restore_items xs s)) p \<noteq> None"
proof (induction xs arbitrary: s)
  case Nil
  then show ?case by simp
next
  case (Cons x xs)
  obtain item product where x: "x = (item, product)" by (cases x)
  show ?case
  proof (cases "product_update (productId item)
             (\<lambda>row. row\<lparr>stock := stock row + quantity item, isAvailable := True\<rparr>) s")
    case (Inl e)
    have "restore_items (x # xs) s = (Inl e, s)"
      by (simp only: x restore_items.simps Inl sum.case)
    with Cons.prems show ?thesis by simp
  next
    case (Inr s1)
    have step: "restore_items (x # xs) s = restore_items xs s1"
      by (simp only: x restore_items.simps Inr sum.case)
    from product_update_keeps [OF Inr Cons.prems] have "products s1 p \<noteq> None" .
    from Cons.IH [OF this] show ?thesis unfolding step .
  qed
qed

lemma adjust_inventory_keeps:
  assumes "products s p \<noteq> None"
  shows "products (snd (adjust_inventory data prev prevPaid order s)) p \<noteq> None"
proof -
  have d: "products (snd (updateProductStock order s)) p \<noteq> None"
    using assms decrement_items_keeps [OF assms]
    by (simp add: updateProductStock_def split: sum.splits)
  have r: "products (snd (restoreProductStock order prev s)) p \<noteq> None"
    using assms restore_items_keeps [OF assms]
    by (simp add: restoreProductStock_def split: sum.splits)
  from adjust_inventory_cases [of data prev prevPaid order s] assms d r show ?thesis
    by auto
qed

lemma update_order_status_keeps:
  "orderItems (snd (update_order_status data s)) = orderItems s \<and>
   (products s p \<noteq> None \<longrightarrow> products (snd (update_order_status data s)) p \<noteq> None)"
proof (cases "findUnique s (orderId_d data)")
  case None
  then show ?thesis by (simp add: update_order_status_def)
next
  case (Some cur)
  show ?thesis
  proof (cases "order_update (orderId_d data) (status_d data) (isPaid_d data)
                  (historyCreate data (status cur)) s")
    case (Inl e)
    then show ?thesis by (simp add: update_order_status_def Some Let_def)
  next
    case (Inr r)
    obtain upd s1 where r: "r = (upd, s1)" by (cases r)
    have w: "order_update (orderId_d data) (status_d data) (isPaid_d data)
               (historyCreate data (status cur)) s = Inr (upd, s1)"
      using Inr r by simp
    from order_update_products [OF w] have p: "products s1 = products s"
      and i: "orderItems s1 = orderItems s"
      by simp_all
    from adjust_inventory_keeps [of s1 p data "status cur" "isPaid cur" "(orderId_d data, upd)"]
      adjust_inventory_frame [of data "status cur" "isPaid cur" "(orderId_d data, upd)" s1]
    show ?thesis by (simp add: update_order_status_snd [OF Some w] p i)
  qed
qed

lemma store_linked_items: "store_linked s \<Longrightarrow> items_linked s oid"
  by (simp add: store_linked_def items_linked_def items_of_def list_all_iff)

lemma shop_linked: "store_linked shop"
  by (simp add: store_linked_def shop_def)

lemma update_order_status_linked:
  assumes "store_linked s"
  shows "store_linked (snd (update_order_status data s))"
proof -
  have "products (snd (update_order_status data s)) (productId item) \<noteq> None"
    if "item \<in> set (orderItems s)" for item
  proof -
    from assms that have "products s (productId item) \<noteq> None"
      by (simp add: store_linked_def list_all_iff)
    with update_order_status_keeps [of data s "productId item"] show ?thesis by blast
  qed
  moreover have "orderItems (snd (update_order_status data s)) = orderItems s"
    using update_order_status_keeps [of data s] by blast
  ultimately show ?thesis
    by (simp add: store_linked_def list_all_iff)
qed

lemma new_order_linked:
  assumes "store_linked s"
  shows "store_linked (snd (new_order tza now od s))"
proof (cases "new_order tza now od s")
  case (Pair r s')
  show ?thesis
  proof (cases r)
    case (Inl e)
    with Pair have "s' = s" by (simp add: new_order_Inl)
    with assms Pair show ?thesis by simp
  next
    case (Inr oid)
    from new_order_Inr [OF Pair [unfolded Inr]]
    have l: "list_all (\<lambda>item. products s (item_id item) \<noteq> None) (panier od)"
      and s': "s' = s\<lparr>orders := orders s @
                  [\<lparr>createdAt = now, number = generateOrderNumber tza now s,
                    status = NEW, isPaid = False\<rparr>],
                orderItems := orderItems s @
                  rev (map (\<lambda>item. \<lparr>quantity = quantity_or_1 (item_quantity item),
                                orderId = length (orders s), productId = item_id item\<rparr>)
                        (panier od)),
                statusHistory := statusHistory s @
                  [\<lparr>status_h = NEW, note_h = Some note_created, orderId_h = length (orders s)\<rparr>]\<rparr>"
      by simp_all
    from assms l show ?thesis
      by (auto simp: Pair s' store_linked_def list_all_iff)
  qed
qed

text \<open>
  Likewise every item belongs to an order of the store: \<^verbatim>\<open>new_order\<close> gives the
  items the key of the order it creates, and no handler removes an order. So the
  items of a new order are the rows made for its cart lines, and no others.
\<close>

lemma shop_owned: "items_owned shop"
  by (simp add: items_owned_def shop_def)

lemma update_order_status_orders_length:
  "length (orders (snd (update_order_status data s))) = length (orders s)"
proof (cases "findUnique s (orderId_d data)")
  case None
  then show ?thesis by (simp add: update_order_status_def)
next
  case (Some cur)
  show ?thesis
  proof (cases "order_update (orderId_d data) (status_d data) (isPaid_d data)
                  (historyCreate data (status cur)) s")
    case (Inl e)
    then show ?thesis by (simp add: update_order_status_def Some Let_def)
  next
    case (Inr r)
    obtain upd s1 where r: "r = (upd, s1)" by (cases r)
    have w: "order_update (orderId_d data) (status_d data) (isPaid_d data)
               (historyCreate data (status cur)) s = Inr (upd, s1)"
      using Inr r by simp
    have "length (orders s1) = length (orders s)"
      using w by (auto simp: order_update_def Let_def split: option.splits sum.splits)
    with adjust_inventory_frame [of data "status cur" "isPaid cur" "(orderId_d data, upd)" s1]
    show ?thesis by (simp add: update_order_status_snd [OF Some w])
  qed
qed

lemma update_order_status_owned:
  "items_owned s \<Longrightarrow> items_owned (snd (update_order_status data s))"
  using update_order_status_keeps [of data s] update_order_status_orders_length [of data s]
  by (simp add: items_owned_def)

lemma new_order_owned:
  assumes "items_owned s"
  shows "items_owned (snd (new_order tza now od s))"
proof (cases "new_order tza now od s")
  case (Pair r s')
  show ?thesis
  proof (cases r)
    case (Inl e)
    with Pair have "s' = s" by (simp add: new_order_Inl)
    with assms Pair show ?thesis by simp
  next
    case (Inr oid)
    from new_order_Inr [OF Pair [unfolded Inr]]
    have s': "s' = s\<lparr>orders := orders s @
                  [\<lparr>createdAt = now, number = generateOrderNumber tza now s,
                    status = NEW, isPaid = False\<rparr>],
                orderItems := orderItems s @
                  rev (map (\<lambda>item. \<lparr>quantity = quantity_or_1 (item_quantity item),
                                orderId = length (orders s), productId = item_id item\<rparr>)
                        (panier od)),
                statusHistory := statusHistory s @
                  [\<lparr>status_h = NEW, note_h = Some note_created, orderId_h = length (orders s)\<rparr>]\<rparr>"
      by simp
    from assms show ?thesis
      by (auto simp: Pair s' items_owned_def list_all_iff)
  qed
qed

lemma new_order_items_of:
  assumes "new_order tza now od s = (Inr oid, s')" and "items_owned s"
  shows "items_of s' oid =
           rev (map (\<lambda>item. \<lparr>quantity = quantity_or_1 (item_quantity item),
                              orderId = oid, productId = item_id item\<rparr>) (panier od)) \<and>
         products s' = products s \<and>
         list_all (\<lambda>item. products s (item_id item) \<noteq> None) (panier od) \<and>
         list_all (\<lambda>item. within_Int (quantity_or_1 (item_quantity item))) (panier od)"
proof -
  from new_order_Inr [OF assms(1)]
  have l: "list_all (\<lambda>item. products s (item_id item) \<noteq> None) (panier od)"
    and w: "list_all (\<lambda>item. within_Int (quantity_or_1 (item_quantity item))) (panier od)"
    and oid: "oid = length (orders s)"
    and s': "s' = s\<lparr>orders := orders s @
                  [\<lparr>createdAt = now, number = generateOrderNumber tza now s,
                    status = NEW, isPaid = False\<rparr>],
                orderItems := orderItems s @
                  rev (map (\<lambda>item. \<lparr>quantity = quantity_or_1 (item_quantity item),
                                orderId = length (orders s), productId = item_id item\<rparr>)
                        (panier od)),
                statusHistory := statusHistory s @
                  [\<lparr>status_h = NEW, note_h = Some note_created, orderId_h = length (orders s)\<rparr>]\<rparr>"
    by simp_all
  have old: "filter (\<lambda>item. orderId item = length (orders s)) (orderItems s) = []"
    using assms(2) by (auto simp: items_owned_def list_all_iff filter_empty_conv)
  have new: "filter (\<lambda>item. orderId item = length (orders s))
               (map (\<lambda>item. \<lparr>quantity = quantity_or_1 (item_quantity item),
                              orderId = length (orders s), productId = item_id item\<rparr>) xs) =
             map (\<lambda>item. \<lparr>quantity = quantity_or_1 (item_quantity item),
                              orderId = length (orders s), productId = item_id item\<rparr>) xs" for xs
    by (induction xs) simp_all
  have "items_of s' oid =
           rev (map (\<lambda>item. \<lparr>quantity = quantity_or_1 (item_quantity item),
                              orderId = oid, productId = item_id item\<rparr>) (panier od))"
    by (simp add: items_of_def s' oid old new rev_filter)
  moreover have "products s' = products s"
    by (simp add: s')
  ultimately show ?thesis using l w by simp
qed

lemma qty_total_append: "qty_total (xs @ ys) p = qty_total xs p + qty_total ys p"
  by (simp add: qty_total_def)

lemma qty_total_rev: "qty_total (rev xs) p = qty_total xs p"
  by (induction xs) (simp_all add: qty_total_append qty_total_Nil qty_total_Cons)

lemma cart_total_Nil: "cart_total [] p = 0"
  by (simp add: cart_total_def)

lemma cart_total_Cons:
  "cart_total (line # lines) p =
     (if item_id line = p then quantity_or_1 (item_quantity line) else 0) + cart_total lines p"
  by (simp add: cart_total_def)

lemma qty_total_cart:
  "qty_total (map (\<lambda>item. \<lparr>quantity = quantity_or_1 (item_quantity item),
                            orderId = oid, productId = item_id item\<rparr>) lines) p =
   cart_total lines p"
  by (induction lines) (simp_all add: qty_total_Nil qty_total_Cons cart_total_Nil cart_total_Cons)

lemma cart_total_remove1:
  "line \<in> set lines \<Longrightarrow>
     cart_total lines (item_id line) =
       quantity_or_1 (item_quantity line) + cart_total (remove1 line lines) (item_id line)"
proof (induction lines)
  case Nil
  then show ?case by simp
next
  case (Cons a lines)
  show ?case
  proof (cases "a = line")
    case True
    then show ?thesis by (simp add: cart_total_Cons)
  next
    case False
    with Cons.prems have "line \<in> set lines" by simp
    from Cons.IH [OF this] False show ?thesis by (simp add: cart_total_Cons)
  qed
qed


text \<open>
  The sides of the column at work: an order for as many pieces as the column holds
  is taken and put in preparation, unpaid, so that nothing is lowered. Its
  cancellation writes the order and the history entry; then the restore fails on
  the stock, which stays as it was.
\<close>

lemma huge_order_cancel_refused:
  "fst (new_order tza_paris morning huge_submission shop) = Inr 0 \<and>
   map_option status (findUnique shop_huge_preparing 0) = Some PREPARING \<and>
   fst (update_order_status cancel shop_huge_preparing) = Inl IntegerOutOfRange \<and>
   map_option status (findUnique (snd (update_order_status cancel shop_huge_preparing)) 0) =
     Some CANCELLED \<and>
   length (statusHistory (snd (update_order_status cancel shop_huge_preparing))) =
     length (statusHistory shop_huge_preparing) + 1 \<and>
   products (snd (update_order_status cancel shop_huge_preparing)) ''A'' =
     Some \<lparr>stock = 10, isAvailable = True\<rparr>"
  by code_simp

section \<open>The same order, decremented again\<close>

text \<open>
  Claim C1 does not hold of the code. The order of the shop asks for three of the
  first product, of which there are ten. It is paid and put in preparation: seven
  are left. While it is paid and in preparation, a call that gives
  \<^verbatim>\<open>isPaid = true\<close> again takes three more, and so does a call that gives the
  status \<^verbatim>\<open>PREPARING\<close> again: the stock of the order is taken three times.
\<close>

theorem stock_decremented_again:
  "map_option stock (products shop_ordered ''A'') = Some 10 \<and>
   map_option stock (products shop_prepared_paid ''A'') = Some 7 \<and>
   findUnique shop_prepared_paid 0 =
     Some \<lparr>createdAt = 1741338000000, number = ''20250307-001'', status = PREPARING, isPaid = True\<rparr> \<and>
   map_option stock (products (snd (update_order_status pay shop_prepared_paid)) ''A'') = Some 4 \<and>
   findUnique (snd (update_order_status pay shop_prepared_paid)) 0 =
     Some \<lparr>createdAt = 1741338000000, number = ''20250307-001'', status = PREPARING, isPaid = True\<rparr> \<and>
   map_option stock (products (snd (update_order_status prepare
      (snd (update_order_status pay shop_prepared_paid)))) ''A'') = Some 1"
  by code_simp

section \<open>When the stock is lowered\<close>

text \<open>
  Claim C2, as amended. Take a call on an order that is not already both in
  preparation and paid, with a status that is absent or a name of the enum. Let the
  items of the order all point to products and have no negative quantity, and let
  every stock, less and plus the quantities of the order's items of its product,
  fit the \<^verbatim>\<open>Int\<close> column. Then the call ends without error. Both guards of the
  decrement hold exactly when the order as the call leaves it is in preparation and
  paid. In that case the stock of every product is lowered by the quantities of the
  order's items of that product. In every other case no stock is lowered: the
  stocks are kept, except that they are raised by those quantities when the call
  cancels an order that was in preparation. (A call that pays an order in
  preparation and moves it to another status at once therefore lowers nothing.)
\<close>

theorem decrement_when_prepared_and_paid:
  assumes "findUnique s (orderId_d data) = Some cur"
    and "\<not> (status cur = PREPARING \<and> isPaid cur)"
    and "status_d data = map_option status_name st"
    and "items_linked s (orderId_d data)"
    and "list_all (\<lambda>item. 0 \<le> quantity item) (items_of s (orderId_d data))"
    and "\<forall>p row. products s p = Some row \<longrightarrow>
           within_Int (stock row - qty_total (items_of s (orderId_d data)) p) \<and>
           within_Int (stock row + qty_total (items_of s (orderId_d data)) p)"
  shows "fst (update_order_status data s) =
           Inr (cur\<lparr>status := status_after cur st, isPaid := isPaid_after cur (isPaid_d data)\<rparr>) \<and>
         (decrement_applies data cur
            (cur\<lparr>status := status_after cur st, isPaid := isPaid_after cur (isPaid_d data)\<rparr>) \<longleftrightarrow>
          status_after cur st = PREPARING \<and> isPaid_after cur (isPaid_d data)) \<and>
         (\<forall>p. map_option stock (products (snd (update_order_status data s)) p) =
            map_option (\<lambda>row.
               if status_after cur st = PREPARING \<and> isPaid_after cur (isPaid_d data)
               then stock row - qty_total (items_of s (orderId_d data)) p
               else if status cur = PREPARING \<and> status_after cur st = CANCELLED
               then stock row + qty_total (items_of s (orderId_d data)) p
               else stock row) (products s p)) \<and>
         (\<not> (status_after cur st = PREPARING \<and> isPaid_after cur (isPaid_d data)) \<longrightarrow>
            (\<forall>p row row'. products s p = Some row \<and>
                products (snd (update_order_status data s)) p = Some row' \<longrightarrow>
                stock row \<le> stock row'))"
proof -
  note d = decrement_applies_iff [OF assms(2,3)]
  have r: "restore_applies data cur
           (cur\<lparr>status := status_after cur st, isPaid := isPaid_after cur (isPaid_d data)\<rparr>) \<longleftrightarrow>
         status cur = PREPARING \<and> status_after cur st = CANCELLED"
    unfolding restore_applies_iff [OF assms(3)]
    using assms(2) by (cases st) (auto simp: status_after_def)
  note u = update_order_status_stock [OF assms(1,3,4,5,6), unfolded d r]
  from u have ok: "fst (update_order_status data s) =
           Inr (cur\<lparr>status := status_after cur st, isPaid := isPaid_after cur (isPaid_d data)\<rparr>)"
    by (metis fst_conv)
  from u have f: "\<forall>p. map_option stock (products (snd (update_order_status data s)) p) =
            map_option (\<lambda>row.
               if status_after cur st = PREPARING \<and> isPaid_after cur (isPaid_d data)
               then stock row - qty_total (items_of s (orderId_d data)) p
               else if status cur = PREPARING \<and> status_after cur st = CANCELLED
               then stock row + qty_total (items_of s (orderId_d data)) p
               else stock row) (products s p)"
    by blast
  have n: "0 \<le> qty_total (items_of s (orderId_d data)) p" for p
    using assms(5) by (rule qty_total_nonneg)
  have up: "stock row \<le> stock row'"
    if c: "\<not> (status_after cur st = PREPARING \<and> isPaid_after cur (isPaid_d data))"
      and a: "products s p = Some row \<and> products (snd (update_order_status data s)) p = Some row'"
    for p row row'
  proof -
    from f [rule_format, of p] a c
    have "stock row' =
        (if status cur = PREPARING \<and> status_after cur st = CANCELLED
         then stock row + qty_total (items_of s (orderId_d data)) p else stock row)"
      by auto
    with n [of p] show ?thesis by (simp split: if_splits)
  qed
  from ok d f up show ?thesis by blast
qed

text \<open>
  The theorem at work: the order of the shop, new and unpaid, is paid and put in
  preparation by one call, which takes three from the ten of the first product.
\<close>

theorem decrement_when_prepared_and_paid_witness:
  "map_option stock (products shop_ordered ''A'') = Some 10 \<and>
   map_option stock (products (snd (update_order_status prepare_paid shop_ordered)) ''A'') = Some 7"
proof -
  have f: "orderId_d prepare_paid = 0" "isPaid_d prepare_paid = Some True"
    "status_d prepare_paid = map_option status_name (Some PREPARING)"
    by (simp_all add: prepare_paid_def)
  have h1: "findUnique shop_ordered (orderId_d prepare_paid) =
     Some \<lparr>createdAt = 1741338000000, number = ''20250307-001'', status = NEW, isPaid = False\<rparr>"
    using shop_ordered_facts(1) by (simp only: f)
  have h2: "\<not> (status \<lparr>createdAt = 1741338000000, number = ''20250307-001'', status = NEW,
                        isPaid = False\<rparr> = PREPARING \<and>
               isPaid \<lparr>createdAt = 1741338000000, number = ''20250307-001'', status = NEW,
                        isPaid = False\<rparr>)"
    by simp
  have h4: "items_linked shop_ordered (orderId_d prepare_paid)"
    using shop_ordered_facts(4) by (simp only: f)
  have h5: "list_all (\<lambda>item. 0 \<le> quantity item) (items_of shop_ordered (orderId_d prepare_paid))"
    using shop_ordered_room(1) by (simp only: f)
  have h6: "\<forall>p row. products shop_ordered p = Some row \<longrightarrow>
     within_Int (stock row - qty_total (items_of shop_ordered (orderId_d prepare_paid)) p) \<and>
     within_Int (stock row + qty_total (items_of shop_ordered (orderId_d prepare_paid)) p)"
    using shop_ordered_room(2) by (simp only: f)
  have a: "products shop_ordered ''A'' = Some \<lparr>stock = 10, isAvailable = True\<rparr>"
    by (simp add: shop_ordered_facts(3) shop_def)
  note t = decrement_when_prepared_and_paid [OF h1 h2 f(3) h4 h5 h6, THEN conjunct2,
      THEN conjunct2, THEN conjunct1, rule_format, of "''A''"]
  have "map_option stock (products (snd (update_order_status prepare_paid shop_ordered)) ''A'') = Some 7"
    using t by (simp add: f(1,2) a shop_ordered_facts(2) status_after_def isPaid_after_def qty_total_def)
  then show ?thesis by (simp add: a)
qed

text \<open>
  Claim C2 as stated fails: the order is in preparation and not paid; a call pays
  it and sets it to \<^verbatim>\<open>READY\<close>. The previous status was \<^verbatim>\<open>PREPARING\<close> and the
  call made the order paid, yet no stock has changed.
\<close>

theorem paid_while_leaving_counterexample:
  "map_option status (findUnique shop_preparing 0) = Some PREPARING \<and>
   map_option isPaid (findUnique shop_preparing 0) = Some False \<and>
   isPaid_d ready_paid = Some True \<and>
   map_option isPaid (findUnique (snd (update_order_status ready_paid shop_preparing)) 0) = Some True \<and>
   products (snd (update_order_status ready_paid shop_preparing)) ''A'' = products shop_preparing ''A'' \<and>
   products (snd (update_order_status ready_paid shop_preparing)) ''B'' = products shop_preparing ''B'' \<and>
   products shop_preparing ''A'' = Some \<lparr>stock = 10, isAvailable = True\<rparr> \<and>
   products shop_preparing ''B'' = Some \<lparr>stock = 1, isAvailable = True\<rparr>"
  by code_simp

section \<open>When the stock is restored\<close>

text \<open>
  Claim C3, as amended. Take a call on an order that exists, with a status that is
  absent or a name of the enum. Let the items of the order all point to products
  and have no negative quantity, and let every stock, less and plus the quantities
  of the order's items of its product, fit the \<^verbatim>\<open>Int\<close> column. Then the call ends
  without error. Both guards of the restore hold exactly when the order was in
  preparation and either the call cancels it, or the order was paid and the call
  sets it unpaid while leaving it in preparation (no status given, or
  \<^verbatim>\<open>PREPARING\<close> again). In that case the stock of every product is raised by the
  quantities of the order's items of that product, and the products of those items
  are made available whatever their stock, the others keeping their flag. In every
  other case no stock is raised: each stock is kept or lowered by those quantities.
\<close>

theorem restore_when_cancelled_or_unpaid:
  assumes "findUnique s (orderId_d data) = Some cur"
    and "status_d data = map_option status_name st"
    and "items_linked s (orderId_d data)"
    and "list_all (\<lambda>item. 0 \<le> quantity item) (items_of s (orderId_d data))"
    and "\<forall>p row. products s p = Some row \<longrightarrow>
           within_Int (stock row - qty_total (items_of s (orderId_d data)) p) \<and>
           within_Int (stock row + qty_total (items_of s (orderId_d data)) p)"
  shows "fst (update_order_status data s) =
           Inr (cur\<lparr>status := status_after cur st, isPaid := isPaid_after cur (isPaid_d data)\<rparr>) \<and>
         (restore_applies data cur
            (cur\<lparr>status := status_after cur st, isPaid := isPaid_after cur (isPaid_d data)\<rparr>) \<longleftrightarrow>
          status cur = PREPARING \<and>
          (st = Some CANCELLED \<or>
           (isPaid cur \<and> isPaid_d data = Some False \<and> (st = None \<or> st = Some PREPARING)))) \<and>
         (restore_applies data cur
            (cur\<lparr>status := status_after cur st, isPaid := isPaid_after cur (isPaid_d data)\<rparr>) \<longrightarrow>
          (\<forall>p. map_option stock (products (snd (update_order_status data s)) p) =
                map_option (\<lambda>row. stock row + qty_total (items_of s (orderId_d data)) p)
                  (products s p)) \<and>
          (\<forall>p. map_option isAvailable (products (snd (update_order_status data s)) p) =
                map_option (\<lambda>row. p \<in> productId ` set (items_of s (orderId_d data)) \<or> isAvailable row)
                  (products s p))) \<and>
         (\<not> restore_applies data cur
            (cur\<lparr>status := status_after cur st, isPaid := isPaid_after cur (isPaid_d data)\<rparr>) \<longrightarrow>
          (\<forall>p. map_option stock (products (snd (update_order_status data s)) p) =
                  map_option stock (products s p) \<or>
                map_option stock (products (snd (update_order_status data s)) p) =
                  map_option (\<lambda>row. stock row - qty_total (items_of s (orderId_d data)) p)
                    (products s p)) \<and>
          (\<forall>p row row'. products s p = Some row \<and>
              products (snd (update_order_status data s)) p = Some row' \<longrightarrow>
              stock row' \<le> stock row))"
proof (intro conjI impI)
  from update_order_status_stock [OF assms]
  show "fst (update_order_status data s) =
           Inr (cur\<lparr>status := status_after cur st, isPaid := isPaid_after cur (isPaid_d data)\<rparr>)"
    by (metis fst_conv)
next
  show "restore_applies data cur
            (cur\<lparr>status := status_after cur st, isPaid := isPaid_after cur (isPaid_d data)\<rparr>) \<longleftrightarrow>
          status cur = PREPARING \<and>
          (st = Some CANCELLED \<or>
           (isPaid cur \<and> isPaid_d data = Some False \<and> (st = None \<or> st = Some PREPARING)))"
    by (rule restore_applies_iff [OF assms(2)])
next
  assume r: "restore_applies data cur
            (cur\<lparr>status := status_after cur st, isPaid := isPaid_after cur (isPaid_d data)\<rparr>)"
  from restore_excludes_decrement [OF r] update_order_status_stock [OF assms] r
  show "\<forall>p. map_option stock (products (snd (update_order_status data s)) p) =
                map_option (\<lambda>row. stock row + qty_total (items_of s (orderId_d data)) p)
                  (products s p)"
    by simp
  from update_order_status_stock [OF assms] r
  show "\<forall>p. map_option isAvailable (products (snd (update_order_status data s)) p) =
                map_option (\<lambda>row. p \<in> productId ` set (items_of s (orderId_d data)) \<or> isAvailable row)
                  (products s p)"
    by simp
next
  assume r: "\<not> restore_applies data cur
            (cur\<lparr>status := status_after cur st, isPaid := isPaid_after cur (isPaid_d data)\<rparr>)"
  show k: "\<forall>p. map_option stock (products (snd (update_order_status data s)) p) =
                  map_option stock (products s p) \<or>
                map_option stock (products (snd (update_order_status data s)) p) =
                  map_option (\<lambda>row. stock row - qty_total (items_of s (orderId_d data)) p)
                    (products s p)"
  proof (cases "decrement_applies data cur
            (cur\<lparr>status := status_after cur st, isPaid := isPaid_after cur (isPaid_d data)\<rparr>)")
    case True
    with update_order_status_stock [OF assms] show ?thesis by simp
  next
    case False
    with r update_order_status_stock [OF assms] show ?thesis
      by (simp add: option.map_ident map_option.identity)
  qed
  have n: "0 \<le> qty_total (items_of s (orderId_d data)) p" for p
    using assms(4) by (rule qty_total_nonneg)
  show "\<forall>p row row'. products s p = Some row \<and>
              products (snd (update_order_status data s)) p = Some row' \<longrightarrow>
              stock row' \<le> stock row"
  proof (intro allI impI)
    fix p row row'
    assume a: "products s p = Some row \<and>
              products (snd (update_order_status data s)) p = Some row'"
    from k [rule_format, of p] a
    have "stock row' = stock row \<or>
          stock row' = stock row - qty_total (items_of s (orderId_d data)) p"
      by auto
    with n [of p] show "stock row' \<le> stock row" by auto
  qed
qed

text \<open>
  The theorem at work: the order of the shop, paid and in preparation, is
  cancelled; the first product is back at ten and the second, which was sold out
  and not available, is back at one and available.
\<close>

theorem restore_when_cancelled_or_unpaid_witness:
  "products shop_prepared_paid ''B'' = Some \<lparr>stock = 0, isAvailable = False\<rparr> \<and>
   map_option stock (products (snd (update_order_status cancel shop_prepared_paid)) ''A'') = Some 10 \<and>
   map_option stock (products (snd (update_order_status cancel shop_prepared_paid)) ''B'') = Some 1 \<and>
   map_option isAvailable (products (snd (update_order_status cancel shop_prepared_paid)) ''B'') =
     Some True"
proof -
  have f: "orderId_d cancel = 0" "isPaid_d cancel = None"
    "status_d cancel = map_option status_name (Some CANCELLED)"
    by (simp_all add: cancel_def)
  have h1: "findUnique shop_prepared_paid (orderId_d cancel) =
     Some \<lparr>createdAt = 1741338000000, number = ''20250307-001'', status = PREPARING, isPaid = True\<rparr>"
    using shop_prepared_paid_facts(1) by (simp only: f)
  have h3: "items_linked shop_prepared_paid (orderId_d cancel)"
    using shop_prepared_paid_facts(5) by (simp only: f)
  have h4: "list_all (\<lambda>item. 0 \<le> quantity item) (items_of shop_prepared_paid (orderId_d cancel))"
    using shop_prepared_paid_room(1) by (simp only: f)
  have h5: "\<forall>p row. products shop_prepared_paid p = Some row \<longrightarrow>
     within_Int (stock row - qty_total (items_of shop_prepared_paid (orderId_d cancel)) p) \<and>
     within_Int (stock row + qty_total (items_of shop_prepared_paid (orderId_d cancel)) p)"
    using shop_prepared_paid_room(2) by (simp only: f)
  note t = restore_when_cancelled_or_unpaid [OF h1 f(3) h3 h4 h5, THEN conjunct2]
  have r: "restore_applies cancel
       \<lparr>createdAt = 1741338000000, number = ''20250307-001'', status = PREPARING, isPaid = True\<rparr>
       (\<lparr>createdAt = 1741338000000, number = ''20250307-001'', status = PREPARING, isPaid = True\<rparr>
          \<lparr>status := status_after \<lparr>createdAt = 1741338000000, number = ''20250307-001'',
                         status = PREPARING, isPaid = True\<rparr> (Some CANCELLED),
            isPaid := isPaid_after \<lparr>createdAt = 1741338000000, number = ''20250307-001'',
                         status = PREPARING, isPaid = True\<rparr> (isPaid_d cancel)\<rparr>)"
    using t [THEN conjunct1] by simp
  note u = t [THEN conjunct2, THEN conjunct1, rule_format, OF r]
  have a: "map_option stock (products (snd (update_order_status cancel shop_prepared_paid)) ''A'') = Some 10"
    using u [THEN conjunct1, rule_format, of "''A''"]
    by (simp add: f(1) shop_prepared_paid_facts(2,3) qty_total_def)
  have b: "map_option stock (products (snd (update_order_status cancel shop_prepared_paid)) ''B'') = Some 1"
    using u [THEN conjunct1, rule_format, of "''B''"]
    by (simp add: f(1) shop_prepared_paid_facts(2,4) qty_total_def)
  have c: "map_option isAvailable (products (snd (update_order_status cancel shop_prepared_paid)) ''B'') =
     Some True"
    using u [THEN conjunct2, rule_format, of "''B''"]
    by (simp add: f(1) shop_prepared_paid_facts(2,4))
  from shop_prepared_paid_facts(4) a b c show ?thesis by (intro conjI)
qed

text \<open>
  Claim C3 as stated fails: the order is in preparation and paid; a call sets it
  unpaid and \<^verbatim>\<open>READY\<close>. The previous status was \<^verbatim>\<open>PREPARING\<close>, the order was
  paid and the call sets \<^verbatim>\<open>isPaid\<close> to false, yet no stock is given back and the
  second product stays unavailable.
\<close>

theorem unpaid_while_leaving_counterexample:
  "map_option status (findUnique shop_prepared_paid 0) = Some PREPARING \<and>
   map_option isPaid (findUnique shop_prepared_paid 0) = Some True \<and>
   isPaid_d ready_unpaid = Some False \<and>
   map_option isPaid (findUnique (snd (update_order_status ready_unpaid shop_prepared_paid)) 0) =
     Some False \<and>
   products shop_prepared_paid ''A'' = Some \<lparr>stock = 7, isAvailable = True\<rparr> \<and>
   products shop_prepared_paid ''B'' = Some \<lparr>stock = 0, isAvailable = False\<rparr> \<and>
   products (snd (update_order_status ready_unpaid shop_prepared_paid)) ''A'' =
     Some \<lparr>stock = 7, isAvailable = True\<rparr> \<and>
   products (snd (update_order_status ready_unpaid shop_prepared_paid)) ''B'' =
     Some \<lparr>stock = 0, isAvailable = False\<rparr>"
  by code_simp

section \<open>The two inventory effects of one call\<close>

text \<open>
  Claim C4. A call of \<^verbatim>\<open>update_order_status\<close> leaves the store as it was (the order
  is unknown or the status is refused), or it writes the order and then the store is
  what that write left, or what the decrement alone made of it, or what the restore
  alone made of it: never the decrement followed by the restore. The write of the
  order itself touches no product. This holds for every payload and every previous
  state of the order.
\<close>

theorem inventory_effects_exclusive:
  "snd (update_order_status data s) = s \<or>
   (\<exists>cur upd s1.
      findUnique s (orderId_d data) = Some cur \<and>
      order_update (orderId_d data) (status_d data) (isPaid_d data)
        (historyCreate data (status cur)) s = Inr (upd, s1) \<and>
      products s1 = products s \<and>
      (snd (update_order_status data s) = s1 \<or>
       snd (update_order_status data s) = snd (updateProductStock (orderId_d data, upd) s1) \<or>
       snd (update_order_status data s) =
         snd (restoreProductStock (orderId_d data, upd) (status cur) s1)))"
proof (cases "findUnique s (orderId_d data)")
  case None
  then show ?thesis by (simp add: update_order_status_def)
next
  case (Some cur)
  show ?thesis
  proof (cases "order_update (orderId_d data) (status_d data) (isPaid_d data)
                  (historyCreate data (status cur)) s")
    case (Inl e)
    then show ?thesis by (simp add: update_order_status_def Some Let_def)
  next
    case (Inr r)
    obtain upd s1 where r: "r = (upd, s1)" by (cases r)
    have w: "order_update (orderId_d data) (status_d data) (isPaid_d data)
               (historyCreate data (status cur)) s = Inr (upd, s1)"
      using Inr r by simp
    have p: "products s1 = products s"
      using order_update_products [OF w] by simp
    have "snd (update_order_status data s) = s1 \<or>
       snd (update_order_status data s) = snd (updateProductStock (orderId_d data, upd) s1) \<or>
       snd (update_order_status data s) =
         snd (restoreProductStock (orderId_d data, upd) (status cur) s1)"
      using adjust_inventory_cases [of data "status cur" "isPaid cur" "(orderId_d data, upd)" s1]
      by (auto simp: update_order_status_snd [OF Some w])
    with Some w p show ?thesis by blast
  qed
qed

section \<open>Stock below zero\<close>

text \<open>
  Claim C5, as amended. \<^verbatim>\<open>new_order\<close> changes no product. A call of
  \<^verbatim>\<open>update_order_status\<close> leaves every stock at zero or above provided that,
  before the call, every stock is at zero or above, no item of the order has a
  negative quantity, and the stock of every product covers the quantities of the
  order's items of that product. Nothing in the handlers checks that cover.
\<close>

theorem stock_nonnegative_if_covered:
  assumes "list_all (\<lambda>item. 0 \<le> quantity item) (items_of s (orderId_d data))"
    and "\<forall>p row. products s p = Some row \<longrightarrow>
           0 \<le> stock row \<and> qty_total (items_of s (orderId_d data)) p \<le> stock row"
  shows "products (snd (new_order tza now od s)) = products s \<and>
         (\<forall>p row. products (snd (update_order_status data s)) p = Some row \<longrightarrow> 0 \<le> stock row)"
proof
  show "products (snd (new_order tza now od s)) = products s"
    by (rule new_order_products)
next
  from assms(2) have nn: "\<forall>p row. products s p = Some row \<longrightarrow> 0 \<le> stock row"
    by blast
  show "\<forall>p row. products (snd (update_order_status data s)) p = Some row \<longrightarrow> 0 \<le> stock row"
  proof (cases "findUnique s (orderId_d data)")
    case None
    with nn show ?thesis by (simp add: update_order_status_def)
  next
    case (Some cur)
    show ?thesis
    proof (cases "order_update (orderId_d data) (status_d data) (isPaid_d data)
                    (historyCreate data (status cur)) s")
      case (Inl e)
      with nn show ?thesis by (simp add: update_order_status_def Some Let_def)
    next
      case (Inr r)
      obtain upd s1 where r: "r = (upd, s1)" by (cases r)
      have w: "order_update (orderId_d data) (status_d data) (isPaid_d data)
                 (historyCreate data (status cur)) s = Inr (upd, s1)"
        using Inr r by simp
      from order_update_products [OF w] have p1: "products s1 = products s"
        and i1: "items_of s1 (orderId_d data) = items_of s (orderId_d data)"
        by (simp_all add: items_of_def)
      have q1: "list_all (\<lambda>item. 0 \<le> quantity item) (items_of s1 (fst (orderId_d data, upd)))"
        using assms(1) by (simp add: i1)
      have c1: "\<forall>p row. products s1 p = Some row \<longrightarrow>
           0 \<le> stock row \<and> qty_total (items_of s1 (fst (orderId_d data, upd))) p \<le> stock row"
        using assms(2) by (simp add: i1 p1)
      have n1: "\<forall>p row. products s1 p = Some row \<longrightarrow> 0 \<le> stock row"
        using nn by (simp add: p1)
      from adjust_inventory_cases [of data "status cur" "isPaid cur" "(orderId_d data, upd)" s1]
        updateProductStock_nonneg [OF q1 c1]
        restoreProductStock_nonneg [OF q1 n1, of "status cur"] n1
      have "\<forall>p row. products (snd (adjust_inventory data (status cur) (isPaid cur)
                (orderId_d data, upd) s1)) p = Some row \<longrightarrow> 0 \<le> stock row"
        by auto
      then show ?thesis by (simp only: update_order_status_snd [OF Some w])
    qed
  qed
qed

text \<open>
  The theorem at work: the shop covers the order (ten for three, one for one), and
  after the order is paid and prepared the second product is at zero.
\<close>

theorem stock_nonnegative_if_covered_witness:
  "products (snd (update_order_status prepare_paid shop_ordered)) ''B'' =
     Some \<lparr>stock = 0, isAvailable = False\<rparr> \<and>
   (0 :: int) \<le> stock \<lparr>stock = 0, isAvailable = False\<rparr>"
proof -
  have f: "orderId_d prepare_paid = 0"
    by (simp add: prepare_paid_def)
  have h1: "list_all (\<lambda>item. 0 \<le> quantity item) (items_of shop_ordered (orderId_d prepare_paid))"
    by (simp add: f shop_ordered_facts(2))
  have h2: "\<forall>p row. products shop_ordered p = Some row \<longrightarrow>
           0 \<le> stock row \<and> qty_total (items_of shop_ordered (orderId_d prepare_paid)) p \<le> stock row"
    by (auto simp: f shop_ordered_facts(2,3) shop_def qty_total_def)
  have b: "products (snd (update_order_status prepare_paid shop_ordered)) ''B'' =
     Some \<lparr>stock = 0, isAvailable = False\<rparr>"
    using shop_prepared_paid_facts(4) by (simp only: shop_prepared_paid_def)
  note t = stock_nonnegative_if_covered [OF h1 h2, THEN conjunct2, rule_format, OF b]
  from b t show ?thesis by (rule conjI)
qed

text \<open>
  Claim C5 as stated fails: the shop has one of the second product; an order for
  three of it is accepted, and when it is paid and put in preparation the stock
  is two below zero.
\<close>

theorem stock_below_zero_counterexample:
  "products shop ''B'' = Some \<lparr>stock = 1, isAvailable = True\<rparr> \<and>
   fst (new_order tza_paris morning greedy_submission shop) = Inr 0 \<and>
   fst (update_order_status prepare_paid (snd (new_order tza_paris morning greedy_submission shop))) =
     Inr \<lparr>createdAt = 1741338000000, number = ''20250307-001'', status = PREPARING, isPaid = True\<rparr> \<and>
   products (snd (update_order_status prepare_paid
      (snd (new_order tza_paris morning greedy_submission shop)))) ''B'' =
     Some \<lparr>stock = - 2, isAvailable = False\<rparr>"
  by code_simp

section \<open>No check of the transition\<close>

text \<open>
  Claim C6, as amended. The handler does not compare the requested status with the
  present one. For an order that exists, whatever its status, a payload whose
  status is absent or is the name of one of the five statuses is applied as given:
  afterwards the order carries the status of the payload (its own when none is
  given) and the payment flag of the payload (its own when none is given). Only a
  status string that is no name of the enum is refused, and then nothing is written.
\<close>

theorem any_transition_applied:
  assumes "findUnique s (orderId_d data) = Some cur"
  shows "(status_d data = map_option status_name st \<longrightarrow>
            findUnique (snd (update_order_status data s)) (orderId_d data) =
              Some (cur\<lparr>status := status_after cur st,
                         isPaid := isPaid_after cur (isPaid_d data)\<rparr>)) \<and>
         (\<forall>x. status_d data = Some x \<and> parse_status x = None \<longrightarrow>
            update_order_status data s = (Inl (InvalidEnumValue x), s))"
proof (intro conjI impI allI)
  assume st: "status_d data = map_option status_name st"
  from assms have len: "orderId_d data < length (orders s)"
    by (simp add: findUnique_def split: if_splits)
  obtain r s2 where a: "adjust_inventory data (status cur) (isPaid cur)
             (orderId_d data, cur\<lparr>status := status_after cur st, isPaid := isPaid_after cur (isPaid_d data)\<rparr>)
             (s\<lparr>orders := (orders s)[orderId_d data :=
                   cur\<lparr>status := status_after cur st, isPaid := isPaid_after cur (isPaid_d data)\<rparr>],
                statusHistory := statusHistory s @
                  (case st of None \<Rightarrow> []
                   | Some v \<Rightarrow> [\<lparr>status_h = v,
                        note_h = Some (history_note (note_d data) (status cur) (status_name v)),
                        orderId_h = orderId_d data\<rparr>])\<rparr>) = (r, s2)"
    by (rule prod.exhaust)
  from adjust_inventory_frame [of data "status cur" "isPaid cur"
             "(orderId_d data, cur\<lparr>status := status_after cur st, isPaid := isPaid_after cur (isPaid_d data)\<rparr>)"
             "s\<lparr>orders := (orders s)[orderId_d data :=
                   cur\<lparr>status := status_after cur st, isPaid := isPaid_after cur (isPaid_d data)\<rparr>],
                statusHistory := statusHistory s @
                  (case st of None \<Rightarrow> []
                   | Some v \<Rightarrow> [\<lparr>status_h = v,
                        note_h = Some (history_note (note_d data) (status cur) (status_name v)),
                        orderId_h = orderId_d data\<rparr>])\<rparr>"]
  have o: "orders s2 = (orders s)[orderId_d data :=
                   cur\<lparr>status := status_after cur st, isPaid := isPaid_after cur (isPaid_d data)\<rparr>]"
    by (simp add: a)
  have "snd (update_order_status data s) = s2"
    by (simp add: update_order_status_valid [OF assms st] a split: sum.splits)
  then show "findUnique (snd (update_order_status data s)) (orderId_d data) =
              Some (cur\<lparr>status := status_after cur st,
                         isPaid := isPaid_after cur (isPaid_d data)\<rparr>)"
    using len by (simp add: findUnique_def o)
next
  fix x
  assume "status_d data = Some x \<and> parse_status x = None"
  then show "update_order_status data s = (Inl (InvalidEnumValue x), s)"
    using update_order_status_invalid [OF assms] by blast
qed

text \<open>
  The theorem at work: the served order is set back to \<^verbatim>\<open>NEW\<close> and unpaid, and a
  status that is no name of the enum is refused.
\<close>

theorem any_transition_applied_witness:
  "findUnique shop_completed 0 =
     Some \<lparr>createdAt = 1741338000000, number = ''20250307-001'',
           status = COMPLETED, isPaid = True\<rparr> \<and>
   findUnique (snd (update_order_status reopen shop_completed)) 0 =
     Some \<lparr>createdAt = 1741338000000, number = ''20250307-001'', status = NEW, isPaid = False\<rparr> \<and>
   update_order_status bad_status shop_completed = (Inl (InvalidEnumValue ''DONE''), shop_completed)"
proof -
  have c: "findUnique shop_completed 0 =
             Some \<lparr>createdAt = 1741338000000, number = ''20250307-001'',
                   status = COMPLETED, isPaid = True\<rparr>"
    by code_simp
  have f: "orderId_d reopen = 0" "isPaid_d reopen = Some False"
    "status_d reopen = map_option status_name (Some NEW)"
    by (simp_all add: reopen_def)
  have g: "orderId_d bad_status = 0"
    "status_d bad_status = Some ''DONE'' \<and> parse_status ''DONE'' = None"
    by (simp_all add: bad_status_def parse_status_def)
  have h1: "findUnique shop_completed (orderId_d reopen) =
             Some \<lparr>createdAt = 1741338000000, number = ''20250307-001'',
                   status = COMPLETED, isPaid = True\<rparr>"
    using c by (simp only: f)
  have h2: "findUnique shop_completed (orderId_d bad_status) =
             Some \<lparr>createdAt = 1741338000000, number = ''20250307-001'',
                   status = COMPLETED, isPaid = True\<rparr>"
    using c by (simp only: g)
  note a = any_transition_applied [OF h1, THEN conjunct1, rule_format, OF f(3)]
  note b = any_transition_applied [OF h2, THEN conjunct2, rule_format, OF g(2)]
  have "findUnique (snd (update_order_status reopen shop_completed)) 0 =
     Some \<lparr>createdAt = 1741338000000, number = ''20250307-001'', status = NEW, isPaid = False\<rparr>"
    using a by (simp add: f(1,2) status_after_def isPaid_after_def)
  with c b show ?thesis by (intro conjI)
qed

text \<open>
  Claim C6 as stated fails: the order that was served (\<^verbatim>\<open>COMPLETED\<close>, paid) is set
  back to \<^verbatim>\<open>NEW\<close> and unpaid by one call, which reports no error.
\<close>

theorem terminal_status_left_counterexample:
  "findUnique shop_completed 0 =
     Some \<lparr>createdAt = 1741338000000, number = ''20250307-001'',
           status = COMPLETED, isPaid = True\<rparr> \<and>
   fst (update_order_status reopen shop_completed) =
     Inr \<lparr>createdAt = 1741338000000, number = ''20250307-001'', status = NEW, isPaid = False\<rparr> \<and>
   findUnique (snd (update_order_status reopen shop_completed)) 0 =
     Some \<lparr>createdAt = 1741338000000, number = ''20250307-001'', status = NEW, isPaid = False\<rparr>"
  by code_simp

section \<open>Submitting an order\<close>

text \<open>
  Claim C7 does not hold of the code. The service is one hour east of UTC. The
  submission is accepted in the morning of 2025-03-07: the store then holds one
  order, two items and one history entry. The same submission, every line of which
  names a product of the store, comes again at half past midnight local time. The
  generator gives the number of the morning's order (claim C8), the store refuses
  the duplicate, and nothing is written: no order, no item, no history entry. With
  the number of the local day, which no order carries, the same create succeeds
  and writes the second order, its two items and its history entry.
\<close>

theorem valid_cart_refused_after_midnight:
  "fst (new_order tza_paris morning submission shop) = Inr 0 \<and>
   length (orders shop_ordered) = 1 \<and>
   length (orderItems shop_ordered) = 2 \<and>
   length (statusHistory shop_ordered) = 1 \<and>
   mapPaymentMethod (paiement submission) = Inr CARD \<and>
   items_create shop_ordered (panier submission) = Inr [(3, ''A''), (1, ''B'')] \<and>
   generateOrderNumber tza_paris after_midnight shop_ordered = ''20250307-001'' \<and>
   new_order tza_paris after_midnight submission shop_ordered =
     (Inl (UniqueConstraintFailed ''20250307-001''), shop_ordered) \<and>
   spec_orderNumber tza_paris after_midnight shop_ordered = ''20250308-001'' \<and>
   fst (order_create after_midnight ''20250308-001'' (nom submission) None
          [(3, ''A''), (1, ''B'')] shop_ordered) = Inr 1 \<and>
   length (orders (snd (order_create after_midnight ''20250308-001'' (nom submission) None
          [(3, ''A''), (1, ''B'')] shop_ordered))) = 2 \<and>
   length (orderItems (snd (order_create after_midnight ''20250308-001'' (nom submission) None
          [(3, ''A''), (1, ''B'')] shop_ordered))) = 4 \<and>
   length (statusHistory (snd (order_create after_midnight ''20250308-001'' (nom submission) None
          [(3, ''A''), (1, ''B'')] shop_ordered))) = 2"
proof -
  have r: "fst (new_order tza_paris morning submission shop) = Inr 0"
    by code_simp
  have n: "length (orders shop_ordered) = 1" "length (orderItems shop_ordered) = 2"
    "length (statusHistory shop_ordered) = 1"
    by code_simp+
  have m: "mapPaymentMethod (paiement submission) = Inr CARD"
    by code_simp
  have i: "items_create shop_ordered (panier submission) = Inr [(3, ''A''), (1, ''B'')]"
    by code_simp
  have g: "generateOrderNumber tza_paris after_midnight shop_ordered = ''20250307-001''"
    by code_simp
  have e: "fst (new_order tza_paris after_midnight submission shop_ordered) =
     Inl (UniqueConstraintFailed ''20250307-001'')"
    by code_simp
  have "new_order tza_paris after_midnight submission shop_ordered =
     (Inl (UniqueConstraintFailed ''20250307-001''),
      snd (new_order tza_paris after_midnight submission shop_ordered))"
    by (simp add: prod_eq_iff e)
  from this new_order_Inl [OF this]
  have f: "new_order tza_paris after_midnight submission shop_ordered =
     (Inl (UniqueConstraintFailed ''20250307-001''), shop_ordered)"
    by simp
  have d: "spec_orderNumber tza_paris after_midnight shop_ordered = ''20250308-001''"
    by code_simp
  have c: "fst (order_create after_midnight ''20250308-001'' (nom submission) None
          [(3, ''A''), (1, ''B'')] shop_ordered) = Inr 1"
    "length (orders (snd (order_create after_midnight ''20250308-001'' (nom submission) None
          [(3, ''A''), (1, ''B'')] shop_ordered))) = 2"
    "length (orderItems (snd (order_create after_midnight ''20250308-001'' (nom submission) None
          [(3, ''A''), (1, ''B'')] shop_ordered))) = 4"
    "length (statusHistory (snd (order_create after_midnight ''20250308-001'' (nom submission) None
          [(3, ''A''), (1, ''B'')] shop_ordered))) = 2"
    by code_simp+
  from r n m i g f d c show ?thesis by (intro conjI)
qed

section \<open>The date of the order number\<close>

text \<open>
  Claim C8 does not hold of the code. The service is one hour east of UTC. One
  order was taken on 2025-03-07 at ten. At half past midnight local time, which is
  2025-03-08 there and still 2025-03-07 in UTC, the generator counts the orders of
  the local day (none) and takes the date from UTC: it gives the number of the
  order of the day before. The local date with the count of the local day would
  give \<^verbatim>\<open>20250308-001\<close>; the day 2025-03-07, local or UTC, has one order already.
\<close>

theorem order_number_of_the_day_before:
  "number (orders shop_ordered ! 0) = ''20250307-001'' \<and>
   generateOrderNumber tza_paris after_midnight shop_ordered = ''20250307-001'' \<and>
   spec_orderNumber tza_paris after_midnight shop_ordered = ''20250308-001'' \<and>
   order_count shop_ordered (setHours tza_paris morning 0 0 0 0)
     (setHours tza_paris morning 23 59 59 999) = 1 \<and>
   order_count shop_ordered (setHours 0 after_midnight 0 0 0 0)
     (setHours 0 after_midnight 23 59 59 999) = 1"
  by code_simp

section \<open>The history of an order\<close>

text \<open>
  Claim C9, as amended. For a call on an order that exists: if the payload gives a
  status that is the name of one of the five statuses, exactly one history entry is
  appended, with that status and with the note of the payload when that is not
  empty, else with the generated note, which reads \<^verbatim>\<open>Statut modifi\<close>(0xE9)
  \<^verbatim>\<open> de X \<close>(0xE0)\<^verbatim>\<open> Y\<close> for the previous status X and the new status Y; if the
  payload gives no status, nothing is appended; if it gives neither status nor
  payment flag, the call succeeds and leaves the store as it was; if it gives a
  status that is no name of the enum, the call fails and nothing is appended.
\<close>

theorem history_entry_per_status:
  assumes "findUnique s (orderId_d data) = Some cur"
  shows "(\<forall>v. status_d data = Some (status_name v) \<longrightarrow>
            statusHistory (snd (update_order_status data s)) =
              statusHistory s @
                [\<lparr>status_h = v,
                  note_h = Some (history_note (note_d data) (status cur) (status_name v)),
                  orderId_h = orderId_d data\<rparr>]) \<and>
         (status_d data = None \<longrightarrow>
            statusHistory (snd (update_order_status data s)) = statusHistory s) \<and>
         (status_d data = None \<and> isPaid_d data = None \<longrightarrow>
            update_order_status data s = (Inr cur, s)) \<and>
         (\<forall>x. status_d data = Some x \<and> parse_status x = None \<longrightarrow>
            update_order_status data s = (Inl (InvalidEnumValue x), s))"
proof -
  have hist: "statusHistory (snd (update_order_status data s)) =
          statusHistory s @
            (case st of None \<Rightarrow> []
             | Some v \<Rightarrow> [\<lparr>status_h = v,
                  note_h = Some (history_note (note_d data) (status cur) (status_name v)),
                  orderId_h = orderId_d data\<rparr>])"
    if st: "status_d data = map_option status_name st" for st
  proof -
    obtain r s2 where a: "adjust_inventory data (status cur) (isPaid cur)
             (orderId_d data, cur\<lparr>status := status_after cur st, isPaid := isPaid_after cur (isPaid_d data)\<rparr>)
             (s\<lparr>orders := (orders s)[orderId_d data :=
                   cur\<lparr>status := status_after cur st, isPaid := isPaid_after cur (isPaid_d data)\<rparr>],
                statusHistory := statusHistory s @
                  (case st of None \<Rightarrow> []
                   | Some v \<Rightarrow> [\<lparr>status_h = v,
                        note_h = Some (history_note (note_d data) (status cur) (status_name v)),
                        orderId_h = orderId_d data\<rparr>])\<rparr>) = (r, s2)"
      by (rule prod.exhaust)
    from adjust_inventory_frame [of data "status cur" "isPaid cur"
             "(orderId_d data, cur\<lparr>status := status_after cur st, isPaid := isPaid_after cur (isPaid_d data)\<rparr>)"
             "s\<lparr>orders := (orders s)[orderId_d data :=
                   cur\<lparr>status := status_after cur st, isPaid := isPaid_after cur (isPaid_d data)\<rparr>],
                statusHistory := statusHistory s @
                  (case st of None \<Rightarrow> []
                   | Some v \<Rightarrow> [\<lparr>status_h = v,
                        note_h = Some (history_note (note_d data) (status cur) (status_name v)),
                        orderId_h = orderId_d data\<rparr>])\<rparr>"]
    have h: "statusHistory s2 = statusHistory s @
                  (case st of None \<Rightarrow> []
                   | Some v \<Rightarrow> [\<lparr>status_h = v,
                        note_h = Some (history_note (note_d data) (status cur) (status_name v)),
                        orderId_h = orderId_d data\<rparr>])"
      by (simp add: a)
    have "snd (update_order_status data s) = s2"
      by (simp add: update_order_status_valid [OF assms st] a split: sum.splits)
    then show ?thesis by (simp add: h)
  qed
  have idle: "update_order_status data s = (Inr cur, s)"
    if n: "status_d data = None \<and> isPaid_d data = None"
  proof -
    from assms have c: "orderId_d data < length (orders s)" "orders s ! orderId_d data = cur"
      by (auto simp: findUnique_def split: if_splits)
    have st: "status_d data = map_option status_name None"
      using n by simp
    have t: "\<not> decrement_trigger data (status cur) cur"
      "\<not> restore_trigger data (status cur) (isPaid cur)"
      using n by (simp_all add: decrement_trigger_def restore_trigger_def)
    have same: "s\<lparr>orders := (orders s)[orderId_d data := cur], statusHistory := statusHistory s\<rparr> = s"
      using c by (simp add: list_update_same_conv)
    show ?thesis
      using n t by (simp add: update_order_status_valid [OF assms st] status_after_def
          isPaid_after_def adjust_inventory_def same)
  qed
  show ?thesis
  proof (intro conjI impI allI)
    fix v
    assume "status_d data = Some (status_name v)"
    then have "status_d data = map_option status_name (Some v)" by simp
    from hist [OF this]
    show "statusHistory (snd (update_order_status data s)) =
              statusHistory s @
                [\<lparr>status_h = v,
                  note_h = Some (history_note (note_d data) (status cur) (status_name v)),
                  orderId_h = orderId_d data\<rparr>]"
      by simp
  next
    assume "status_d data = None"
    then have "status_d data = map_option status_name None" by simp
    from hist [OF this]
    show "statusHistory (snd (update_order_status data s)) = statusHistory s"
      by simp
  next
    assume "status_d data = None \<and> isPaid_d data = None"
    then show "update_order_status data s = (Inr cur, s)" by (rule idle)
  next
    fix x
    assume "status_d data = Some x \<and> parse_status x = None"
    then show "update_order_status data s = (Inl (InvalidEnumValue x), s)"
      using update_order_status_invalid [OF assms] by blast
  qed
qed

text \<open>
  The theorem at work on the order of the shop: a call with status
  \<^verbatim>\<open>PREPARING\<close> and the note \<^verbatim>\<open>go\<close> appends one entry with that note, and a call
  with neither status nor payment flag changes nothing.
\<close>

theorem history_entry_per_status_witness:
  "statusHistory (snd (update_order_status prepare_noted shop_ordered)) =
     statusHistory shop_ordered @ [\<lparr>status_h = PREPARING, note_h = Some ''go'', orderId_h = 0\<rparr>] \<and>
   update_order_status touch shop_ordered =
     (Inr \<lparr>createdAt = 1741338000000, number = ''20250307-001'', status = NEW, isPaid = False\<rparr>,
      shop_ordered)"
proof -
  have c: "findUnique shop_ordered 0 =
             Some \<lparr>createdAt = 1741338000000, number = ''20250307-001'',
                   status = NEW, isPaid = False\<rparr>"
    by code_simp
  have f: "orderId_d prepare_noted = 0" "note_d prepare_noted = Some ''go''"
    "status_d prepare_noted = Some (status_name PREPARING)"
    by (simp_all add: prepare_noted_def)
  have g: "orderId_d touch = 0" "status_d touch = None \<and> isPaid_d touch = None"
    by (simp_all add: touch_def)
  have h1: "findUnique shop_ordered (orderId_d prepare_noted) =
             Some \<lparr>createdAt = 1741338000000, number = ''20250307-001'',
                   status = NEW, isPaid = False\<rparr>"
    using c by (simp only: f)
  have h2: "findUnique shop_ordered (orderId_d touch) =
             Some \<lparr>createdAt = 1741338000000, number = ''20250307-001'',
                   status = NEW, isPaid = False\<rparr>"
    using c by (simp only: g)
  note a = history_entry_per_status [OF h1, THEN conjunct1, rule_format, OF f(3)]
  note b = history_entry_per_status [OF h2, THEN conjunct2, THEN conjunct2, THEN conjunct1,
      rule_format, OF g(2)]
  have "statusHistory (snd (update_order_status prepare_noted shop_ordered)) =
     statusHistory shop_ordered @ [\<lparr>status_h = PREPARING, note_h = Some ''go'', orderId_h = 0\<rparr>]"
    using a by (simp add: f(1,2) history_note_def)
  with b show ?thesis by (intro conjI)
qed

text \<open>
  Claim C9 as stated fails: the note generated for the step from \<^verbatim>\<open>NEW\<close> to
  \<^verbatim>\<open>PREPARING\<close> is not the text of the claim, and a call that gives a status
  which is no name of the enum appends no entry.
\<close>

theorem generated_note_counterexample:
  "statusHistory (snd (update_order_status prepare shop_ordered)) =
     statusHistory shop_ordered @
       [\<lparr>status_h = PREPARING,
         note_h = Some (''Statut modifi'' @ [CHR 0xE9] @ '' de NEW '' @ [CHR 0xE0] @ '' PREPARING''),
         orderId_h = 0\<rparr>] \<and>
   ''Statut modifi'' @ [CHR 0xE9] @ '' de NEW '' @ [CHR 0xE0] @ '' PREPARING'' \<noteq>
     ''status changed from NEW to PREPARING'' \<and>
   statusHistory (snd (update_order_status bad_status shop_ordered)) =
     statusHistory shop_ordered"
  by code_simp

section \<open>The quantity of a cart line\<close>

text \<open>
  Claim C10. Let \<^verbatim>\<open>new_order\<close> succeed on a store whose items all belong to orders
  of the store, and take a line of the cart whose quantity is absent, zero or
  \<^verbatim>\<open>NaN\<close>. The new order has as many items as the cart has lines, and among them
  the item of quantity 1 that points to the product of the line. The line counts
  for one piece in what the cart asks of its product. Let furthermore no line of
  the cart have a negative quantity and every stock, less and plus what the cart
  asks of its product, fit the \<^verbatim>\<open>Int\<close> column. Then \<^verbatim>\<open>updateProductStock\<close>,
  called for the new order once it is paid and in preparation, ends without error
  and lowers the stock of the product of the line by one piece and the pieces of
  the other lines of that product; and \<^verbatim>\<open>restoreProductStock\<close>, called for the new
  order when its guard holds, ends without error and raises that stock by as much.
\<close>

theorem falsy_quantity_is_one:
  assumes "new_order tza now od s = (Inr oid, s')"
    and "items_owned s"
    and "line \<in> set (panier od)"
    and "item_quantity line = Undefined \<or> item_quantity line = Number 0 \<or>
         item_quantity line = NaN"
  shows "length (items_of s' oid) = length (panier od) \<and>
         \<lparr>quantity = 1, orderId = oid, productId = item_id line\<rparr> \<in> set (items_of s' oid) \<and>
         cart_total (panier od) (item_id line) =
           1 + cart_total (remove1 line (panier od)) (item_id line) \<and>
         (list_all (\<lambda>l. 0 \<le> quantity_or_1 (item_quantity l)) (panier od) \<and>
          (\<forall>p row. products s p = Some row \<longrightarrow>
             within_Int (stock row - cart_total (panier od) p) \<and>
             within_Int (stock row + cart_total (panier od) p)) \<longrightarrow>
          (isPaid upd \<and> status upd = PREPARING \<longrightarrow>
             fst (updateProductStock (oid, upd) s') = Inr () \<and>
             map_option stock (products (snd (updateProductStock (oid, upd) s')) (item_id line)) =
               map_option (\<lambda>row. stock row -
                   (1 + cart_total (remove1 line (panier od)) (item_id line)))
                 (products s (item_id line))) \<and>
          (shouldRestoreStock upd prev \<longrightarrow>
             fst (restoreProductStock (oid, upd) prev s') = Inr () \<and>
             map_option stock (products (snd (restoreProductStock (oid, upd) prev s')) (item_id line)) =
               map_option (\<lambda>row. stock row +
                   (1 + cart_total (remove1 line (panier od)) (item_id line)))
                 (products s (item_id line))))"
proof -
  let ?row = "\<lambda>item. \<lparr>quantity = quantity_or_1 (item_quantity item), orderId = oid,
                       productId = item_id item\<rparr>"
  from new_order_items_of [OF assms(1,2)]
  have items: "items_of s' oid = rev (map ?row (panier od))"
    and prods: "products s' = products s"
    and res: "list_all (\<lambda>item. products s (item_id item) \<noteq> None) (panier od)"
    by simp_all
  have q: "quantity_or_1 (item_quantity line) = 1"
    using assms(4) by auto
  have len: "length (items_of s' oid) = length (panier od)"
    by (simp add: items)
  have "?row line \<in> set (items_of s' oid)"
    using assms(3) unfolding items set_rev set_map by (rule imageI)
  then have mem: "\<lparr>quantity = 1, orderId = oid, productId = item_id line\<rparr> \<in> set (items_of s' oid)"
    by (simp only: q)
  have one: "cart_total (panier od) (item_id line) =
           1 + cart_total (remove1 line (panier od)) (item_id line)"
    using cart_total_remove1 [OF assms(3)] by (simp only: q)
  have tot: "qty_total (items_of s' oid) p = cart_total (panier od) p" for p
    by (simp only: items qty_total_rev qty_total_cart)
  have linked: "items_linked s' (fst (oid, upd))"
    using res by (simp add: items_linked_def items prods list_all_iff)
  have later: "(isPaid upd \<and> status upd = PREPARING \<longrightarrow>
             fst (updateProductStock (oid, upd) s') = Inr () \<and>
             map_option stock (products (snd (updateProductStock (oid, upd) s')) (item_id line)) =
               map_option (\<lambda>row. stock row -
                   (1 + cart_total (remove1 line (panier od)) (item_id line)))
                 (products s (item_id line))) \<and>
          (shouldRestoreStock upd prev \<longrightarrow>
             fst (restoreProductStock (oid, upd) prev s') = Inr () \<and>
             map_option stock (products (snd (restoreProductStock (oid, upd) prev s')) (item_id line)) =
               map_option (\<lambda>row. stock row +
                   (1 + cart_total (remove1 line (panier od)) (item_id line)))
                 (products s (item_id line)))"
    if nonneg: "list_all (\<lambda>l. 0 \<le> quantity_or_1 (item_quantity l)) (panier od)"
      and room: "\<forall>p row. products s p = Some row \<longrightarrow>
             within_Int (stock row - cart_total (panier od) p) \<and>
             within_Int (stock row + cart_total (panier od) p)"
  proof -
    have n: "list_all (\<lambda>item. 0 \<le> quantity item) (items_of s' (fst (oid, upd)))"
      using nonneg by (simp add: items list_all_iff)
    have w: "\<forall>p row. products s' p = Some row \<longrightarrow>
           within_Int (stock row - qty_total (items_of s' (fst (oid, upd))) p) \<and>
           within_Int (stock row + qty_total (items_of s' (fst (oid, upd))) p)"
      using room by (simp add: tot prods)
    note sides = stock_room_sides [OF n w]
    have dec: "fst (updateProductStock (oid, upd) s') = Inr () \<and>
             map_option stock (products (snd (updateProductStock (oid, upd) s')) (item_id line)) =
               map_option (\<lambda>row. stock row -
                   (1 + cart_total (remove1 line (panier od)) (item_id line)))
                 (products s (item_id line))"
      if g: "isPaid upd \<and> status upd = PREPARING"
    proof -
      from g have g': "isPaid (snd (oid, upd)) \<and> status (snd (oid, upd)) = PREPARING"
        by simp
      from updateProductStock_applied [OF g' linked n sides(1)]
      have "fst (updateProductStock (oid, upd) s') = Inr ()"
        and "map_option stock (products (snd (updateProductStock (oid, upd) s')) (item_id line)) =
              map_option (\<lambda>row. stock row - qty_total (items_of s' (fst (oid, upd))) (item_id line))
                (products s' (item_id line))"
        by blast+
      then show ?thesis by (simp add: tot prods one)
    qed
    have rest: "fst (restoreProductStock (oid, upd) prev s') = Inr () \<and>
             map_option stock (products (snd (restoreProductStock (oid, upd) prev s')) (item_id line)) =
               map_option (\<lambda>row. stock row +
                   (1 + cart_total (remove1 line (panier od)) (item_id line)))
                 (products s (item_id line))"
      if g: "shouldRestoreStock upd prev"
    proof -
      from g have g': "shouldRestoreStock (snd (oid, upd)) prev"
        by simp
      from restoreProductStock_applied [OF g' linked n sides(2)]
      have "fst (restoreProductStock (oid, upd) prev s') = Inr ()"
        and "map_option stock (products (snd (restoreProductStock (oid, upd) prev s')) (item_id line)) =
              map_option (\<lambda>row. stock row + qty_total (items_of s' (fst (oid, upd))) (item_id line))
                (products s' (item_id line))"
        by blast+
      then show ?thesis by (simp add: tot prods one)
    qed
    from dec rest show ?thesis by blast
  qed
  from len mem one later show ?thesis by blast
qed

text \<open>
  The theorem at work: a cart asks for no piece of the first product and has a
  \<^verbatim>\<open>NaN\<close> for the second. Its order has an item of one piece of the first product;
  paid and in preparation it takes the stock of that product from ten to nine, and
  its cancellation while in preparation, had the stock not been lowered, brings
  ten to eleven.
\<close>

theorem falsy_quantity_is_one_witness:
  "fst (new_order tza_paris morning zero_submission shop) = Inr 0 \<and>
   \<lparr>quantity = 1, orderId = 0, productId = ''A''\<rparr> \<in> set (items_of shop_zero 0) \<and>
   length (items_of shop_zero 0) = 2 \<and>
   map_option stock (products shop ''A'') = Some 10 \<and>
   fst (updateProductStock
          (0, \<lparr>createdAt = morning, number = ''20250307-001'', status = PREPARING, isPaid = True\<rparr>)
          shop_zero) = Inr () \<and>
   map_option stock (products (snd (updateProductStock
          (0, \<lparr>createdAt = morning, number = ''20250307-001'', status = PREPARING, isPaid = True\<rparr>)
          shop_zero)) ''A'') = Some 9 \<and>
   fst (restoreProductStock
          (0, \<lparr>createdAt = morning, number = ''20250307-001'', status = CANCELLED, isPaid = False\<rparr>)
          PREPARING shop_zero) = Inr () \<and>
   map_option stock (products (snd (restoreProductStock
          (0, \<lparr>createdAt = morning, number = ''20250307-001'', status = CANCELLED, isPaid = False\<rparr>)
          PREPARING shop_zero)) ''A'') = Some 11"
proof -
  have r: "fst (new_order tza_paris morning zero_submission shop) = Inr 0"
    by code_simp
  have h1: "new_order tza_paris morning zero_submission shop = (Inr 0, shop_zero)"
    using r by (simp add: prod_eq_iff shop_zero_def)
  have h3: "\<lparr>item_id = ''A'', item_quantity = Number 0\<rparr> \<in> set (panier zero_submission)"
    by (simp add: zero_submission_def)
  have h4: "item_quantity \<lparr>item_id = ''A'', item_quantity = Number 0\<rparr> = Undefined \<or>
            item_quantity \<lparr>item_id = ''A'', item_quantity = Number 0\<rparr> = Number 0 \<or>
            item_quantity \<lparr>item_id = ''A'', item_quantity = Number 0\<rparr> = NaN"
    by simp
  have n: "list_all (\<lambda>l. 0 \<le> quantity_or_1 (item_quantity l)) (panier zero_submission)"
    by (simp add: zero_submission_def)
  have w: "\<forall>p row. products shop p = Some row \<longrightarrow>
             within_Int (stock row - cart_total (panier zero_submission) p) \<and>
             within_Int (stock row + cart_total (panier zero_submission) p)"
    by (auto simp: cart_total_def zero_submission_def within_Int_def dest!: shop_products_cases)
  have a: "products shop (item_id \<lparr>item_id = ''A'', item_quantity = Number 0\<rparr>) =
             Some \<lparr>stock = 10, isAvailable = True\<rparr>"
    by (simp add: shop_def)
  have c: "cart_total (remove1 \<lparr>item_id = ''A'', item_quantity = Number 0\<rparr> (panier zero_submission))
             (item_id \<lparr>item_id = ''A'', item_quantity = Number 0\<rparr>) = 0"
    by (simp add: cart_total_def zero_submission_def)
  note t = falsy_quantity_is_one [OF h1 shop_owned h3 h4]
  note t1 = t [where upd = "\<lparr>createdAt = morning, number = ''20250307-001'', status = PREPARING,
                      isPaid = True\<rparr>" and prev = PREPARING]
  note t2 = t [where upd = "\<lparr>createdAt = morning, number = ''20250307-001'', status = CANCELLED,
                      isPaid = False\<rparr>" and prev = PREPARING]
  have len: "length (items_of shop_zero 0) = 2"
    using t1 [THEN conjunct1] by (simp add: zero_submission_def)
  have mem: "\<lparr>quantity = 1, orderId = 0, productId = ''A''\<rparr> \<in> set (items_of shop_zero 0)"
    using t1 [THEN conjunct2, THEN conjunct1] by simp
  have g1: "isPaid \<lparr>createdAt = morning, number = ''20250307-001'', status = PREPARING,
                      isPaid = True\<rparr> \<and>
            status \<lparr>createdAt = morning, number = ''20250307-001'', status = PREPARING,
                      isPaid = True\<rparr> = PREPARING"
    by simp
  have g2: "shouldRestoreStock \<lparr>createdAt = morning, number = ''20250307-001'', status = CANCELLED,
                      isPaid = False\<rparr> PREPARING"
    by (simp add: shouldRestoreStock_def)
  note d = t1 [THEN conjunct2, THEN conjunct2, THEN conjunct2, rule_format, OF conjI [OF n w],
      THEN conjunct1, rule_format, OF g1, unfolded a c]
  note u = t2 [THEN conjunct2, THEN conjunct2, THEN conjunct2, rule_format, OF conjI [OF n w],
      THEN conjunct2, rule_format, OF g2, unfolded a c]
  have s: "map_option stock (products shop ''A'') = Some 10"
    by (simp add: shop_def)
  from d have d1: "fst (updateProductStock
          (0, \<lparr>createdAt = morning, number = ''20250307-001'', status = PREPARING, isPaid = True\<rparr>)
          shop_zero) = Inr ()"
    and d2: "map_option stock (products (snd (updateProductStock
          (0, \<lparr>createdAt = morning, number = ''20250307-001'', status = PREPARING, isPaid = True\<rparr>)
          shop_zero)) ''A'') = Some 9"
    by simp_all
  from u have u1: "fst (restoreProductStock
          (0, \<lparr>createdAt = morning, number = ''20250307-001'', status = CANCELLED, isPaid = False\<rparr>)
          PREPARING shop_zero) = Inr ()"
    and u2: "map_option stock (products (snd (restoreProductStock
          (0, \<lparr>createdAt = morning, number = ''20250307-001'', status = CANCELLED, isPaid = False\<rparr>)
          PREPARING shop_zero)) ''A'') = Some 11"
    by simp_all
  from r mem len s d1 d2 u1 u2 show ?thesis by (intro conjI)
qed

end
